theory Spec2Isabelle
  imports Complex_Main "HOL-Library.AList" "HOL-Library.Log_Nat"
begin

section \<open>Python values and the builtins the integration relies on\<close>

text \<open>
  The upstream service answers with JSON; \<open>json.loads\<close> turns a body into Python
  values. A Python float is an IEEE double: a finite double is the rational it
  denotes, the three special values are constructors of their own. \<open>None\<close> is
  \<open>JNull\<close>. A dict is an association list in insertion order whose first
  binding of a key is the one that counts (\<open>AList.update\<close> keeps the position of a
  key that is already there and appends a new one, as a Python dict does). Strings
  are lists of characters with code points below 256.
\<close>

datatype pyfloat = Finite rat | PosInf | NegInf | NaN

datatype json =
    JNull
  | JBool bool
  | JInt int
  | JFloat pyfloat
  | JStr string
  | JList "json list"
  | JObj "(string \<times> json) list"

datatype error =
    TransportFailure
  | ProtocolFailure
  | AttributeError
  | TypeError
  | ValueError
  | OverflowError
  | UpdateFailed error

text \<open>Truth value of an object, as \<open>if not self._token\<close> tests it.\<close>

fun truthy :: "json \<Rightarrow> bool" where
  "truthy JNull = False"
| "truthy (JBool b) = b"
| "truthy (JInt i) = (i \<noteq> 0)"
| "truthy (JFloat f) = (f \<noteq> Finite 0)"
| "truthy (JStr s) = (s \<noteq> [])"
| "truthy (JList xs) = (xs \<noteq> [])"
| "truthy (JObj kvs) = (kvs \<noteq> [])"

text \<open>\<open>obj.get(key, default)\<close>: only a dict has the method.\<close>

fun py_get :: "json \<Rightarrow> string \<Rightarrow> json \<Rightarrow> error + json" where
  "py_get (JObj kvs) k d = Inr (case map_of kvs k of Some v \<Rightarrow> v | None \<Rightarrow> d)"
| "py_get _ k d = Inl AttributeError"

text \<open>
  \<open>for x in obj\<close>: a list yields its elements, a dict its keys, a string its
  characters; nothing else is iterable.
\<close>

fun py_iter :: "json \<Rightarrow> error + json list" where
  "py_iter (JList xs) = Inr xs"
| "py_iter (JObj kvs) = Inr (map (\<lambda>kv. JStr (fst kv)) kvs)"
| "py_iter (JStr s) = Inr (map (\<lambda>c. JStr [c]) s)"
| "py_iter _ = Inl TypeError"

text \<open>
  \<open>obj[:20]\<close>, evaluated for a truthy token as an argument of a debug log; only
  that it raises for an object that cannot be sliced matters. A dict takes the
  slice as a key, and a slice cannot be hashed: \<open>TypeError\<close> as well (from
  Python 3.12 on a slice can be hashed and the error is a \<open>KeyError\<close>).
\<close>

fun py_slice_ok :: "json \<Rightarrow> error + unit" where
  "py_slice_ok (JStr s) = Inr ()"
| "py_slice_ok (JList xs) = Inr ()"
| "py_slice_ok _ = Inl TypeError"

subsection \<open>Decimal text of an integer: \<open>str(n)\<close>\<close>

definition digit_char :: "int \<Rightarrow> char" where
  "digit_char n = char_of (48 + n)"

text \<open>The digits of a number that is not negative, most significant first.\<close>

function show_digits :: "int \<Rightarrow> string" where
  "show_digits n = (if n < 10 then [digit_char n] else show_digits (n div 10) @ [digit_char (n mod 10)])"
  by pat_completeness auto
termination
  by (relation "measure nat") auto

declare show_digits.simps [simp del]

definition show_int :: "int \<Rightarrow> string" where
  "show_int i = (if i < 0 then CHR ''-'' # show_digits (- i) else show_digits i)"

text \<open>
  \<open>str(obj)\<close>. The text of a float and of a container (\<open>repr\<close>) is the
  interpreter's own; it is taken as the parameter \<open>rp\<close>.
\<close>

fun py_str :: "(json \<Rightarrow> string) \<Rightarrow> json \<Rightarrow> string" where
  "py_str rp JNull = ''None''"
| "py_str rp (JBool b) = (if b then ''True'' else ''False'')"
| "py_str rp (JInt i) = show_int i"
| "py_str rp (JStr s) = s"
| "py_str rp v = rp v"

subsection \<open>Reading numbers: \<open>int(s)\<close> and \<open>float(s)\<close>\<close>

definition is_digit :: "char \<Rightarrow> bool" where
  "is_digit c = (48 \<le> (of_char c :: nat) \<and> (of_char c :: nat) \<le> 57)"

definition digit_val :: "char \<Rightarrow> int" where
  "digit_val c = of_char c - 48"

text \<open>
  \<open>str.strip()\<close> removes the characters for which \<open>str.isspace\<close> holds; the
  number parsers skip a smaller set (the file and unit separators 28 to 31 are
  not skipped by them).
\<close>

definition py_space :: "char \<Rightarrow> bool" where
  "py_space c = ((of_char c :: nat) \<in> {9, 10, 11, 12, 13, 28, 29, 30, 31, 32, 133, 160})"

definition num_space :: "char \<Rightarrow> bool" where
  "num_space c = ((of_char c :: nat) \<in> {9, 10, 11, 12, 13, 32, 133, 160})"

definition strip_with :: "(char \<Rightarrow> bool) \<Rightarrow> string \<Rightarrow> string" where
  "strip_with P s = rev (dropWhile P (rev (dropWhile P s)))"

text \<open>
  An underscore is accepted only between two digits; \<open>None\<close> is the parser's
  \<open>ValueError\<close>. The first argument is the previous character.
\<close>

fun drop_underscores :: "char \<Rightarrow> string \<Rightarrow> string option" where
  "drop_underscores prev [] = (if prev = CHR ''_'' then None else Some [])"
| "drop_underscores prev (c # cs) =
     (if c = CHR ''_'' then (if is_digit prev then drop_underscores c cs else None)
      else if prev = CHR ''_'' \<and> \<not> is_digit c then None
      else map_option ((#) c) (drop_underscores c cs))"

definition digits_val :: "string \<Rightarrow> int" where
  "digits_val ds = foldl (\<lambda>acc c. 10 * acc + digit_val c) 0 ds"

definition split_sign :: "string \<Rightarrow> bool \<times> string" where
  "split_sign s =
     (case s of
        [] \<Rightarrow> (False, [])
      | c # cs \<Rightarrow> if c = CHR ''-'' then (True, cs) else if c = CHR ''+'' then (False, cs) else (False, s))"

text \<open>
  \<open>int(s)\<close> for a string, base ten: surrounding white space, a sign, digits with
  single underscores between them; more than 4300 digits are refused.
\<close>

definition py_int_of_str :: "string \<Rightarrow> int option" where
  "py_int_of_str s =
     (case drop_underscores (CHR 0x00) (strip_with num_space s) of
        None \<Rightarrow> None
      | Some t \<Rightarrow>
          (case split_sign t of
             (neg, ds) \<Rightarrow>
               if ds = [] \<or> \<not> list_all is_digit ds \<or> 4300 < length ds then None
               else Some (if neg then - digits_val ds else digits_val ds)))"

subsection \<open>Doubles: rounding to the nearest representable value\<close>

definition pow2 :: "int \<Rightarrow> rat" where
  "pow2 u = (if 0 \<le> u then 2 ^ nat u else 1 / 2 ^ nat (- u))"

text \<open>\<open>rat_log2 a\<close> is the exponent \<open>e\<close> with \<open>2^e \<le> a < 2^(e+1)\<close>, for \<open>a > 0\<close>.\<close>

definition rat_log2 :: "rat \<Rightarrow> int" where
  "rat_log2 a =
     (case quotient_of a of
        (n, d) \<Rightarrow> let e0 = bitlen n - bitlen d in if pow2 e0 \<le> a then e0 else e0 - 1)"

definition round_half_even :: "rat \<Rightarrow> int" where
  "round_half_even x =
     (let f = \<lfloor>x\<rfloor>; d = x - of_int f
      in if d < 1 / 2 then f else if 1 / 2 < d then f + 1 else if even f then f else f + 1)"

text \<open>
  The double nearest to a rational, ties to even: 53 significant bits, the unit in
  the last place never below \<open>2^-1074\<close>, and infinity from \<open>2^1024\<close> on.
  \<open>ulp_exp a\<close> is the exponent of the unit in the last place at the magnitude
  \<open>a\<close>, \<open>nearest_mag a\<close> the multiple of that unit nearest to \<open>a\<close>.
\<close>

definition ulp_exp :: "rat \<Rightarrow> int" where
  "ulp_exp a = max (rat_log2 a - 52) (- 1074)"

definition nearest_mag :: "rat \<Rightarrow> rat" where
  "nearest_mag a = of_int (round_half_even (a / pow2 (ulp_exp a))) * pow2 (ulp_exp a)"

definition round_double :: "rat \<Rightarrow> pyfloat" where
  "round_double q =
     (if q = 0 then Finite 0
      else
        let v = nearest_mag \<bar>q\<bar>
        in if pow2 1024 \<le> v then (if q < 0 then NegInf else PosInf)
           else Finite (if q < 0 then - v else v))"

text \<open>The rationals that are doubles: rounding leaves them as they are.\<close>

definition is_double :: "rat \<Rightarrow> bool" where
  "is_double r = (round_double r = Finite r)"

text \<open>
  \<open>x + y\<close> for two finite doubles: the double nearest to the exact sum (an
  infinity where that overflows; no exception). \<open>x >= y\<close> for a finite \<open>x\<close>.
\<close>

definition float_add :: "rat \<Rightarrow> rat \<Rightarrow> pyfloat" where
  "float_add x y = round_double (x + y)"

fun float_ge :: "rat \<Rightarrow> pyfloat \<Rightarrow> bool" where
  "float_ge x (Finite y) = (y \<le> x)"
| "float_ge x NegInf = True"
| "float_ge x PosInf = False"
| "float_ge x NaN = False"

text \<open>\<open>float(n)\<close> for an int raises \<open>OverflowError\<close> where the rounding overflows.\<close>

definition py_float_of_int :: "int \<Rightarrow> error + pyfloat" where
  "py_float_of_int n =
     (case round_double (of_int n) of
        Finite r \<Rightarrow> Inr (Finite r)
      | _ \<Rightarrow> Inl OverflowError)"

definition lower :: "char \<Rightarrow> char" where
  "lower c = (if 65 \<le> (of_char c :: nat) \<and> (of_char c :: nat) \<le> 90 then char_of ((of_char c :: nat) + 32) else c)"

text \<open>
  The exponent part of a float literal: empty, or \<open>e\<close>/\<open>E\<close>, a sign and at least
  one digit. \<open>None\<close> is a syntax error.
\<close>

definition parse_exponent :: "string \<Rightarrow> int option" where
  "parse_exponent s =
     (case s of
        [] \<Rightarrow> Some 0
      | c # cs \<Rightarrow>
          if c = CHR ''e'' \<or> c = CHR ''E'' then
            (case split_sign cs of
               (neg, ds) \<Rightarrow>
                 if ds = [] \<or> \<not> list_all is_digit ds then None
                 else Some (if neg then - digits_val ds else digits_val ds))
          else None)"

definition pow10 :: "int \<Rightarrow> rat" where
  "pow10 u = (if 0 \<le> u then 10 ^ nat u else 1 / 10 ^ nat (- u))"

text \<open>
  An unsigned decimal literal: digits, an optional point and digits (at least one
  digit in all), an optional exponent. The result is the exact value written.
\<close>

definition parse_decimal :: "string \<Rightarrow> rat option" where
  "parse_decimal s =
     (let ip = takeWhile is_digit s;
          r1 = dropWhile is_digit s;
          fp = (case r1 of [] \<Rightarrow> [] | c # cs \<Rightarrow> if c = CHR ''.'' then takeWhile is_digit cs else []);
          r2 = (case r1 of [] \<Rightarrow> [] | c # cs \<Rightarrow> if c = CHR ''.'' then dropWhile is_digit cs else r1)
      in if ip = [] \<and> fp = [] then None
         else
           (case parse_exponent r2 of
              None \<Rightarrow> None
            | Some e \<Rightarrow> Some (of_int (digits_val (ip @ fp)) * pow10 (e - int (length fp)))))"

text \<open>\<open>float(s)\<close> for a string; \<open>None\<close> is \<open>ValueError\<close>.\<close>

definition py_float_of_str :: "string \<Rightarrow> pyfloat option" where
  "py_float_of_str s =
     (case drop_underscores (CHR 0x00) (strip_with num_space s) of
        None \<Rightarrow> None
      | Some t \<Rightarrow>
          (case split_sign t of
             (neg, body) \<Rightarrow>
               if map lower body = ''inf'' \<or> map lower body = ''infinity''
               then Some (if neg then NegInf else PosInf)
               else if map lower body = ''nan'' then Some NaN
               else
                 (case parse_decimal body of
                    None \<Rightarrow> None
                  | Some q \<Rightarrow> Some (round_double (if neg then - q else q)))))"

text \<open>\<open>float(value)\<close> for any object.\<close>

fun py_float :: "json \<Rightarrow> error + pyfloat" where
  "py_float JNull = Inl TypeError"
| "py_float (JBool b) = Inr (Finite (if b then 1 else 0))"
| "py_float (JInt n) = py_float_of_int n"
| "py_float (JFloat f) = Inr f"
| "py_float (JStr s) = (case py_float_of_str s of None \<Rightarrow> Inl ValueError | Some f \<Rightarrow> Inr f)"
| "py_float (JList xs) = Inl TypeError"
| "py_float (JObj kvs) = Inl TypeError"

text \<open>\<open>int(x)\<close> for a float: the fraction is dropped, toward zero.\<close>

fun py_int_of_float :: "pyfloat \<Rightarrow> error + int" where
  "py_int_of_float (Finite r) = Inr (if 0 \<le> r then \<lfloor>r\<rfloor> else \<lceil>r\<rceil>)"
| "py_int_of_float NaN = Inl ValueError"
| "py_int_of_float PosInf = Inl OverflowError"
| "py_int_of_float NegInf = Inl OverflowError"

section \<open>Value coercion (sensor.py)\<close>

text \<open>The handler \<open>except (ValueError, TypeError)\<close>: what it catches becomes the default.\<close>

definition except_value_type :: "'a \<Rightarrow> error + 'a \<Rightarrow> error + 'a" where
  "except_value_type dflt r =
     (case r of
        Inl e \<Rightarrow> if e = ValueError \<or> e = TypeError then Inr dflt else Inl e
      | Inr v \<Rightarrow> Inr v)"

definition is_blank :: "json \<Rightarrow> bool" where
  "is_blank v = (case v of JStr s \<Rightarrow> strip_with py_space s = [] | _ \<Rightarrow> False)"

definition safe_int_convert :: "json \<Rightarrow> error + int" where
  "safe_int_convert v =
     (if v = JNull \<or> v = JStr ''-'' \<or> v = JStr [] then Inr 0
      else if is_blank v then Inr 0
      else
        (case v of
           JBool b \<Rightarrow> Inr (if b then 1 else 0)
         | _ \<Rightarrow>
             except_value_type 0
               (case py_float v of Inl e \<Rightarrow> Inl e | Inr f \<Rightarrow> py_int_of_float f)))"

definition safe_float_convert :: "json \<Rightarrow> error + pyfloat" where
  "safe_float_convert v =
     (if v = JNull \<or> v = JStr ''-'' \<or> v = JStr [] then Inr (Finite 0)
      else if is_blank v then Inr (Finite 0)
      else
        (case v of
           JBool b \<Rightarrow> Inr (Finite (if b then 1 else 0))
         | _ \<Rightarrow> except_value_type (Finite 0) (py_float v)))"

section \<open>The API client (hoymiles_api.py)\<close>

subsection \<open>Transport, clock and session state\<close>

datatype endpoint =
    API_AUTH_URL
  | API_STATIONS_URL
  | API_DTU_URL
  | API_MICROINVERTERS_URL
  | API_REAL_TIME_DATA_URL
  | API_MICRO_DETAIL_URL
  | API_DTU_DETAIL_URL

text \<open>
  A POST: where it goes, the value of its \<open>Authorization\<close> header (absent in the
  login request; otherwise whatever object the token is, \<open>None\<close> included) and
  its JSON body.
\<close>

record request =
  req_url :: endpoint
  req_auth :: "json option"
  req_json :: json

text \<open>
  What awaiting a POST and its body gives: the await raises (a connection error,
  or the cycle's timeout expiring at this suspension point), the body is not
  JSON, or the body parses.
\<close>

datatype reply = Failed | NotJson | Json json

text \<open>
  The world outside the client, over any state \<open>'w\<close>: the HTTP session, the
  clock read by \<open>time.time()\<close> (seconds; a finite double, given as the rational
  it denotes), the MD5 hex digest and the interpreter's \<open>repr\<close>.
\<close>

record 'w runtime =
  rt_post :: "request \<Rightarrow> 'w \<Rightarrow> reply \<times> 'w"
  rt_time :: "'w \<Rightarrow> rat"
  rt_md5 :: "string \<Rightarrow> string"
  rt_repr :: "json \<Rightarrow> string"

text \<open>
  The client object. \<open>_token_expires_at\<close> starts as the number 0 and is a float
  from the first successful login on; \<open>_token_valid_time\<close> is the number 7200,
  which is a double as it stands and is never assigned again.
\<close>

record hoymiles_api =
  username :: string
  password :: string
  token :: json
  token_expires_at :: pyfloat
  token_valid_time :: rat

definition init_api :: "string \<Rightarrow> string \<Rightarrow> hoymiles_api" where
  "init_api u p =
     \<lparr>username = u, password = p, token = JNull, token_expires_at = Finite 0, token_valid_time = 7200\<rparr>"

text \<open>The client object, the world, and the requests issued so far, oldest first.\<close>

record 'w sys =
  api :: hoymiles_api
  world :: 'w
  sent :: "request list"

definition and_then ::
  "(error + 'a) \<times> 's \<Rightarrow> ('a \<Rightarrow> 's \<Rightarrow> (error + 'b) \<times> 's) \<Rightarrow> (error + 'b) \<times> 's" where
  "and_then m f = (case m of (Inl e, s) \<Rightarrow> (Inl e, s) | (Inr v, s) \<Rightarrow> f v s)"

definition http_post :: "'w runtime \<Rightarrow> request \<Rightarrow> 'w sys \<Rightarrow> reply \<times> 'w sys" where
  "http_post rt rq s =
     (case rt_post rt rq (world s) of
        (r, w) \<Rightarrow> (r, s\<lparr>world := w, sent := sent s @ [rq]\<rparr>))"

definition request_json :: "'w runtime \<Rightarrow> request \<Rightarrow> 'w sys \<Rightarrow> (error + json) \<times> 'w sys" where
  "request_json rt rq s =
     (case http_post rt rq s of
        (Failed, s1) \<Rightarrow> (Inl TransportFailure, s1)
      | (NotJson, s1) \<Rightarrow> (Inl ProtocolFailure, s1)
      | (Json j, s1) \<Rightarrow> (Inr j, s1))"

text \<open>\<open>resp.get("status") == "0" and resp.get("message") == "success"\<close>\<close>

definition is_success :: "json \<Rightarrow> error + bool" where
  "is_success resp =
     (case py_get resp ''status'' JNull of
        Inl e \<Rightarrow> Inl e
      | Inr st \<Rightarrow>
          if st = JStr ''0'' then
            (case py_get resp ''message'' JNull of
               Inl e \<Rightarrow> Inl e
             | Inr m \<Rightarrow> Inr (m = JStr ''success''))
          else Inr False)"

subsection \<open>Session and token\<close>

text \<open>\<open>time.time() >= self._token_expires_at\<close>, with the clock reading \<open>now\<close>.\<close>

definition is_token_expired :: "hoymiles_api \<Rightarrow> rat \<Rightarrow> bool" where
  "is_token_expired a now = float_ge now (token_expires_at a)"

definition auth_request :: "'w runtime \<Rightarrow> hoymiles_api \<Rightarrow> request" where
  "auth_request rt a =
     \<lparr>req_url = API_AUTH_URL, req_auth = None,
      req_json = JObj [(''user_name'', JStr (username a)), (''password'', JStr (rt_md5 rt (password a)))]\<rparr>"

definition authenticate :: "'w runtime \<Rightarrow> 'w sys \<Rightarrow> (error + bool) \<times> 'w sys" where
  "authenticate rt s =
     and_then (request_json rt (auth_request rt (api s)) s) (\<lambda>resp s1.
       case is_success resp of
         Inl e \<Rightarrow> (Inl e, s1)
       | Inr False \<Rightarrow> (Inr False, s1)
       | Inr True \<Rightarrow>
           (case py_get resp ''data'' (JObj []) of
              Inl e \<Rightarrow> (Inl e, s1)
            | Inr d \<Rightarrow>
                (case py_get d ''token'' JNull of
                   Inl e \<Rightarrow> (Inl e, s1)
                 | Inr tok \<Rightarrow>
                     (Inr True,
                      s1\<lparr>api := (api s1)\<lparr>token := tok,
                             token_expires_at := float_add (rt_time rt (world s1)) (token_valid_time (api s1))\<rparr>\<rparr>))))"

text \<open>\<open>if not self._token: await self.authenticate()\<close>; the result is not looked at.\<close>

definition ensure_token :: "'w runtime \<Rightarrow> 'w sys \<Rightarrow> (error + unit) \<times> 'w sys" where
  "ensure_token rt s =
     (if truthy (token (api s)) then (Inr (), s)
      else and_then (authenticate rt s) (\<lambda>ok s1. (Inr (), s1)))"

text \<open>The debug log's argument \<open>self._token[:20] if self._token else "None"\<close>.\<close>

definition token_prefix :: "json \<Rightarrow> error + unit" where
  "token_prefix tok = (if truthy tok then py_slice_ok tok else Inr ())"

subsection \<open>Stations, DTUs, microinverters\<close>

record device =
  dev_id :: string
  dev_name :: json

definition page_request :: "endpoint \<Rightarrow> json \<Rightarrow> int \<Rightarrow> request" where
  "page_request u tok sid =
     \<lparr>req_url = u, req_auth = Some tok,
      req_json = JObj [(''sid'', JInt sid), (''page_size'', JInt 1000), (''page_num'', JInt 1),
                       (''show_warn'', JInt 0)]\<rparr>"

definition stations_request :: "json \<Rightarrow> request" where
  "stations_request tok =
     \<lparr>req_url = API_STATIONS_URL, req_auth = Some tok,
      req_json = JObj [(''page_size'', JInt 10), (''page_num'', JInt 1)]\<rparr>"

text \<open>\<open>resp.get("data", {}).get("list", [])\<close>, then the start of the \<open>for\<close> loop.\<close>

definition data_list :: "json \<Rightarrow> error + json list" where
  "data_list resp =
     (case py_get resp ''data'' (JObj []) of
        Inl e \<Rightarrow> Inl e
      | Inr d \<Rightarrow> (case py_get d ''list'' (JList []) of Inl e \<Rightarrow> Inl e | Inr l \<Rightarrow> py_iter l))"

fun add_stations :: "(json \<Rightarrow> string) \<Rightarrow> json list \<Rightarrow> (string \<times> json) list \<Rightarrow> error + (string \<times> json) list" where
  "add_stations rp [] acc = Inr acc"
| "add_stations rp (x # xs) acc =
     (case py_get x ''id'' JNull of
        Inl e \<Rightarrow> Inl e
      | Inr i \<Rightarrow>
          (case py_get x ''name'' JNull of
             Inl e \<Rightarrow> Inl e
           | Inr n \<Rightarrow> add_stations rp xs (AList.update (py_str rp i) n acc)))"

definition stations_of_response :: "(json \<Rightarrow> string) \<Rightarrow> json \<Rightarrow> error + (string \<times> json) list" where
  "stations_of_response rp resp =
     (case is_success resp of
        Inl e \<Rightarrow> Inl e
      | Inr False \<Rightarrow> Inr []
      | Inr True \<Rightarrow> (case data_list resp of Inl e \<Rightarrow> Inl e | Inr xs \<Rightarrow> add_stations rp xs []))"

definition get_stations :: "'w runtime \<Rightarrow> 'w sys \<Rightarrow> (error + (string \<times> json) list) \<times> 'w sys" where
  "get_stations rt s =
     and_then (ensure_token rt s) (\<lambda>u s1.
       case token_prefix (token (api s1)) of
         Inl e \<Rightarrow> (Inl e, s1)
       | Inr u \<Rightarrow>
           and_then (request_json rt (stations_request (token (api s1))) s1) (\<lambda>resp s2.
             (stations_of_response (rt_repr rt) resp, s2)))"

fun add_devices :: "(json \<Rightarrow> string) \<Rightarrow> string \<Rightarrow> json list \<Rightarrow> device list \<Rightarrow> error + device list" where
  "add_devices rp field [] acc = Inr acc"
| "add_devices rp field (x # xs) acc =
     (case py_get x ''id'' JNull of
        Inl e \<Rightarrow> Inl e
      | Inr i \<Rightarrow>
          (case py_get x field JNull of
             Inl e \<Rightarrow> Inl e
           | Inr n \<Rightarrow> add_devices rp field xs (acc @ [\<lparr>dev_id = py_str rp i, dev_name = n\<rparr>])))"

definition devices_of_response :: "(json \<Rightarrow> string) \<Rightarrow> string \<Rightarrow> json \<Rightarrow> error + device list" where
  "devices_of_response rp field resp =
     (case is_success resp of
        Inl e \<Rightarrow> Inl e
      | Inr False \<Rightarrow> Inr []
      | Inr True \<Rightarrow> (case data_list resp of Inl e \<Rightarrow> Inl e | Inr xs \<Rightarrow> add_devices rp field xs []))"

text \<open>
  \<open>get_dtus\<close> and \<open>get_microinverters\<close> differ in the URL and in the field
  taken as the name. Where the source returns \<open>{}\<close> for a rejected listing the
  model has the empty list: both are empty when iterated.
\<close>

definition list_devices ::
  "endpoint \<Rightarrow> string \<Rightarrow> 'w runtime \<Rightarrow> string \<Rightarrow> 'w sys \<Rightarrow> (error + device list) \<times> 'w sys" where
  "list_devices u field rt station_id s =
     and_then (ensure_token rt s) (\<lambda>u0 s1.
       case py_int_of_str station_id of
         None \<Rightarrow> (Inl ValueError, s1)
       | Some sid \<Rightarrow>
           (case token_prefix (token (api s1)) of
              Inl e \<Rightarrow> (Inl e, s1)
            | Inr u1 \<Rightarrow>
                and_then (request_json rt (page_request u (token (api s1)) sid) s1) (\<lambda>resp s2.
                  (devices_of_response (rt_repr rt) field resp, s2))))"

definition get_dtus :: "'w runtime \<Rightarrow> string \<Rightarrow> 'w sys \<Rightarrow> (error + device list) \<times> 'w sys" where
  "get_dtus = list_devices API_DTU_URL ''model_no''"

definition get_microinverters :: "'w runtime \<Rightarrow> string \<Rightarrow> 'w sys \<Rightarrow> (error + device list) \<times> 'w sys" where
  "get_microinverters = list_devices API_MICROINVERTERS_URL ''init_hard_no''"

subsection \<open>Real-time data\<close>

definition station_request :: "json \<Rightarrow> int \<Rightarrow> request" where
  "station_request tok sid =
     \<lparr>req_url = API_REAL_TIME_DATA_URL, req_auth = Some tok, req_json = JObj [(''sid'', JInt sid)]\<rparr>"

definition detail_request :: "endpoint \<Rightarrow> json \<Rightarrow> int \<Rightarrow> int \<Rightarrow> request" where
  "detail_request u tok did sid =
     \<lparr>req_url = u, req_auth = Some tok, req_json = JObj [(''id'', JInt did), (''sid'', JInt sid)]\<rparr>"

text \<open>\<open>resp.get("data", {})\<close> on success, \<open>{}\<close> otherwise.\<close>

definition payload_of_response :: "json \<Rightarrow> error + json" where
  "payload_of_response resp =
     (case is_success resp of
        Inl e \<Rightarrow> Inl e
      | Inr ok \<Rightarrow> if ok then py_get resp ''data'' (JObj []) else Inr (JObj []))"

definition get_real_time_data_station ::
  "'w runtime \<Rightarrow> string \<Rightarrow> 'w sys \<Rightarrow> (error + json) \<times> 'w sys" where
  "get_real_time_data_station rt station_id s =
     and_then (ensure_token rt s) (\<lambda>u s1.
       case py_int_of_str station_id of
         None \<Rightarrow> (Inl ValueError, s1)
       | Some sid \<Rightarrow>
           and_then (request_json rt (station_request (token (api s1)) sid) s1) (\<lambda>resp s2.
             (payload_of_response resp, s2)))"

definition get_real_time_data_microinverter ::
  "'w runtime \<Rightarrow> string \<Rightarrow> string \<Rightarrow> 'w sys \<Rightarrow> (error + json) \<times> 'w sys" where
  "get_real_time_data_microinverter rt station_id microinverter_id s =
     and_then (ensure_token rt s) (\<lambda>u s1.
       case py_int_of_str microinverter_id of
         None \<Rightarrow> (Inl ValueError, s1)
       | Some mid \<Rightarrow>
           (case py_int_of_str station_id of
              None \<Rightarrow> (Inl ValueError, s1)
            | Some sid \<Rightarrow>
                and_then (request_json rt (detail_request API_MICRO_DETAIL_URL (token (api s1)) mid sid) s1)
                  (\<lambda>resp s2. (payload_of_response resp, s2))))"

text \<open>\<open>obj[key] = value\<close>: only a dict takes a string key.\<close>

fun py_setitem :: "json \<Rightarrow> string \<Rightarrow> json \<Rightarrow> error + json" where
  "py_setitem (JObj kvs) k v = Inr (JObj (AList.update k v kvs))"
| "py_setitem _ k v = Inl TypeError"

text \<open>
  The scan of the DTU listing: every entry whose \<open>id\<close> has the text \<open>dtu_id\<close>
  overwrites \<open>warn_data\<close> and \<open>model_no\<close> of the detail record; the scan does not
  stop at a match.
\<close>

fun patch_dtu :: "(json \<Rightarrow> string) \<Rightarrow> string \<Rightarrow> json list \<Rightarrow> json \<Rightarrow> error + json" where
  "patch_dtu rp dtu_id [] dtu_data = Inr dtu_data"
| "patch_dtu rp dtu_id (x # xs) dtu_data =
     (case py_get x ''id'' JNull of
        Inl e \<Rightarrow> Inl e
      | Inr i \<Rightarrow>
          if dtu_id = py_str rp i then
            (case py_get x ''warn_data'' JNull of
               Inl e \<Rightarrow> Inl e
             | Inr w \<Rightarrow>
                 (case py_setitem dtu_data ''warn_data'' w of
                    Inl e \<Rightarrow> Inl e
                  | Inr d1 \<Rightarrow>
                      (case py_get x ''model_no'' JNull of
                         Inl e \<Rightarrow> Inl e
                       | Inr m \<Rightarrow>
                           (case py_setitem d1 ''model_no'' m of
                              Inl e \<Rightarrow> Inl e
                            | Inr d2 \<Rightarrow> patch_dtu rp dtu_id xs d2))))
          else patch_dtu rp dtu_id xs dtu_data)"

definition extend_dtu :: "(json \<Rightarrow> string) \<Rightarrow> string \<Rightarrow> json \<Rightarrow> json \<Rightarrow> error + json" where
  "extend_dtu rp dtu_id dtu_data resp =
     (case is_success resp of
        Inl e \<Rightarrow> Inl e
      | Inr False \<Rightarrow> Inr dtu_data
      | Inr True \<Rightarrow> (case data_list resp of Inl e \<Rightarrow> Inl e | Inr xs \<Rightarrow> patch_dtu rp dtu_id xs dtu_data))"

definition get_real_time_data_dtu ::
  "'w runtime \<Rightarrow> string \<Rightarrow> string \<Rightarrow> 'w sys \<Rightarrow> (error + json) \<times> 'w sys" where
  "get_real_time_data_dtu rt station_id dtu_id s =
     and_then (ensure_token rt s) (\<lambda>u s1.
       case py_int_of_str dtu_id of
         None \<Rightarrow> (Inl ValueError, s1)
       | Some did \<Rightarrow>
           (case py_int_of_str station_id of
              None \<Rightarrow> (Inl ValueError, s1)
            | Some sid \<Rightarrow>
                and_then (request_json rt (detail_request API_DTU_DETAIL_URL (token (api s1)) did sid) s1)
                  (\<lambda>resp s2.
                     case is_success resp of
                       Inl e \<Rightarrow> (Inl e, s2)
                     | Inr False \<Rightarrow> (Inr (JObj []), s2)
                     | Inr True \<Rightarrow>
                         (case py_get resp ''data'' (JObj []) of
                            Inl e \<Rightarrow> (Inl e, s2)
                          | Inr dtu_data \<Rightarrow>
                              and_then (request_json rt (page_request API_DTU_URL (token (api s1)) sid) s2)
                                (\<lambda>resp2 s3. (extend_dtu (rt_repr rt) dtu_id dtu_data resp2, s3))))))"

section \<open>The refresh cycle (__init__.py)\<close>

text \<open>A \<open>for\<close> loop whose body may raise: the first exception ends it.\<close>

fun for_each ::
  "('a \<Rightarrow> 'acc \<Rightarrow> 's \<Rightarrow> (error + 'acc) \<times> 's) \<Rightarrow> 'a list \<Rightarrow> 'acc \<Rightarrow> 's \<Rightarrow> (error + 'acc) \<times> 's" where
  "for_each f [] acc s = (Inr acc, s)"
| "for_each f (x # xs) acc s =
     (case f x acc s of
        (Inl e, s1) \<Rightarrow> (Inl e, s1)
      | (Inr acc1, s1) \<Rightarrow> for_each f xs acc1 s1)"

text \<open>The value stored for an entity: \<open>{"real_time_data": payload}\<close>.\<close>

definition entry :: "json \<Rightarrow> json" where
  "entry p = JObj [(''real_time_data'', p)]"

definition update_dtu ::
  "'w runtime \<Rightarrow> string \<Rightarrow> device \<Rightarrow> (string \<times> json) list \<Rightarrow> 'w sys \<Rightarrow> (error + (string \<times> json) list) \<times> 'w sys" where
  "update_dtu rt station_id d data s =
     and_then (get_real_time_data_dtu rt station_id (dev_id d) s) (\<lambda>p s1.
       (Inr (AList.update (dev_id d) (entry p) data), s1))"

definition update_micro ::
  "'w runtime \<Rightarrow> string \<Rightarrow> device \<Rightarrow> (string \<times> json) list \<Rightarrow> 'w sys \<Rightarrow> (error + (string \<times> json) list) \<times> 'w sys" where
  "update_micro rt station_id d data s =
     and_then (get_real_time_data_microinverter rt station_id (dev_id d) s) (\<lambda>p s1.
       (Inr (AList.update (dev_id d) (entry p) data), s1))"

text \<open>
  \<open>for k, devs in table.items(): if station_id == k: for d in devs: ...\<close>, the
  shape of both inner loops.
\<close>

definition update_devices ::
  "(device \<Rightarrow> (string \<times> json) list \<Rightarrow> 's \<Rightarrow> (error + (string \<times> json) list) \<times> 's) \<Rightarrow>
   string \<Rightarrow> (string \<times> device list) list \<Rightarrow> (string \<times> json) list \<Rightarrow> 's \<Rightarrow>
   (error + (string \<times> json) list) \<times> 's" where
  "update_devices f station_id table data s =
     for_each (\<lambda>kd acc st. if station_id = fst kd then for_each f (snd kd) acc st else (Inr acc, st))
       table data s"

definition update_station ::
  "'w runtime \<Rightarrow> (string \<times> device list) list \<Rightarrow> (string \<times> device list) list \<Rightarrow> string \<Rightarrow>
   (string \<times> json) list \<Rightarrow> 'w sys \<Rightarrow> (error + (string \<times> json) list) \<times> 'w sys" where
  "update_station rt dtus microinverters station_id data s =
     and_then (get_real_time_data_station rt station_id s) (\<lambda>p s1.
       and_then (update_devices (update_dtu rt station_id) station_id dtus
                   (AList.update station_id (entry p) data) s1) (\<lambda>data2 s2.
         update_devices (update_micro rt station_id) station_id microinverters data2 s2))"

text \<open>The reauthentication at the start of a cycle; its result is not looked at.\<close>

definition refresh_token :: "'w runtime \<Rightarrow> 'w sys \<Rightarrow> (error + unit) \<times> 'w sys" where
  "refresh_token rt s =
     (if is_token_expired (api s) (rt_time rt (world s))
      then and_then (authenticate rt s) (\<lambda>ok s1. (Inr (), s1))
      else (Inr (), s))"

text \<open>
  \<open>async_update_data\<close>: \<open>stations\<close>, \<open>dtus\<close> and \<open>microinverters\<close> are the dicts
  filled at set-up. Any exception leaves as \<open>UpdateFailed\<close>.
\<close>

definition async_update_data ::
  "'w runtime \<Rightarrow> (string \<times> json) list \<Rightarrow> (string \<times> device list) list \<Rightarrow> (string \<times> device list) list \<Rightarrow>
   'w sys \<Rightarrow> (error + (string \<times> json) list) \<times> 'w sys" where
  "async_update_data rt stations dtus microinverters s =
     (case and_then (refresh_token rt s) (\<lambda>u s1.
             for_each (update_station rt dtus microinverters) (map fst stations) [] s1) of
        (Inl e, s2) \<Rightarrow> (Inl (UpdateFailed e), s2)
      | (Inr data, s2) \<Rightarrow> (Inr data, s2))"

text \<open>
  Modelled from the spec: the host platform's update coordinator, which calls
  \<open>async_update_data\<close> and is not part of the repository. A returned snapshot
  replaces the published one as a whole; a failed cycle leaves the published
  snapshot as it was and is recorded as failed.
\<close>

record coordinator =
  published :: "(string \<times> json) list option"
  last_update_success :: bool

definition coordinator_refresh ::
  "'w runtime \<Rightarrow> (string \<times> json) list \<Rightarrow> (string \<times> device list) list \<Rightarrow> (string \<times> device list) list \<Rightarrow>
   coordinator \<times> 'w sys \<Rightarrow> coordinator \<times> 'w sys" where
  "coordinator_refresh rt stations dtus microinverters cs =
     (case async_update_data rt stations dtus microinverters (snd cs) of
        (Inl e, s1) \<Rightarrow> ((fst cs)\<lparr>last_update_success := False\<rparr>, s1)
      | (Inr data, s1) \<Rightarrow> (\<lparr>published = Some data, last_update_success = True\<rparr>, s1))"

section \<open>Vocabulary for the properties\<close>

subsection \<open>The entities a cycle visits\<close>

text \<open>
  One fetch per entity: the station, then its DTUs, then its microinverters, for
  each station in turn.
\<close>

datatype job = StationJob string | DtuJob string device | MicroJob string device

fun job_key :: "job \<Rightarrow> string" where
  "job_key (StationJob station_id) = station_id"
| "job_key (DtuJob station_id d) = dev_id d"
| "job_key (MicroJob station_id d) = dev_id d"

fun job_fetch :: "'w runtime \<Rightarrow> job \<Rightarrow> 'w sys \<Rightarrow> (error + json) \<times> 'w sys" where
  "job_fetch rt (StationJob station_id) = get_real_time_data_station rt station_id"
| "job_fetch rt (DtuJob station_id d) = get_real_time_data_dtu rt station_id (dev_id d)"
| "job_fetch rt (MicroJob station_id d) = get_real_time_data_microinverter rt station_id (dev_id d)"

definition run_job ::
  "'w runtime \<Rightarrow> job \<Rightarrow> (string \<times> json) list \<Rightarrow> 'w sys \<Rightarrow> (error + (string \<times> json) list) \<times> 'w sys" where
  "run_job rt j data s =
     and_then (job_fetch rt j s) (\<lambda>p s1. (Inr (AList.update (job_key j) (entry p) data), s1))"

definition devices_of :: "string \<Rightarrow> (string \<times> device list) list \<Rightarrow> device list" where
  "devices_of station_id table = concat (map snd (filter (\<lambda>kd. station_id = fst kd) table))"

definition station_jobs ::
  "(string \<times> device list) list \<Rightarrow> (string \<times> device list) list \<Rightarrow> string \<Rightarrow> job list" where
  "station_jobs dtus microinverters station_id =
     StationJob station_id # map (DtuJob station_id) (devices_of station_id dtus)
       @ map (MicroJob station_id) (devices_of station_id microinverters)"

definition cycle_jobs ::
  "(string \<times> json) list \<Rightarrow> (string \<times> device list) list \<Rightarrow> (string \<times> device list) list \<Rightarrow> job list" where
  "cycle_jobs stations dtus microinverters =
     concat (map (station_jobs dtus microinverters) (map fst stations))"

subsection \<open>The six operations that talk to the service\<close>

datatype operation =
    ListSites
  | ListConcentrators string
  | ListMicroDevices string
  | FetchSiteTelemetry string
  | FetchConcentratorTelemetry string string
  | FetchMicroDeviceTelemetry string string

text \<open>The state an operation leaves behind, whatever it returned.\<close>

fun after_operation :: "'w runtime \<Rightarrow> operation \<Rightarrow> 'w sys \<Rightarrow> 'w sys" where
  "after_operation rt ListSites s = snd (get_stations rt s)"
| "after_operation rt (ListConcentrators station_id) s = snd (get_dtus rt station_id s)"
| "after_operation rt (ListMicroDevices station_id) s = snd (get_microinverters rt station_id s)"
| "after_operation rt (FetchSiteTelemetry station_id) s = snd (get_real_time_data_station rt station_id s)"
| "after_operation rt (FetchConcentratorTelemetry station_id dtu_id) s =
     snd (get_real_time_data_dtu rt station_id dtu_id s)"
| "after_operation rt (FetchMicroDeviceTelemetry station_id micro_id) s =
     snd (get_real_time_data_microinverter rt station_id micro_id s)"

text \<open>The requests issued between two states.\<close>

definition issued :: "'w sys \<Rightarrow> 'w sys \<Rightarrow> request list" where
  "issued s s' = drop (length (sent s)) (sent s')"

subsection \<open>Sessions that have not authenticated yet\<close>

text \<open>
  \<open>authenticate\<close> is the only code that assigns the token or its expiry. These are
  the client states from construction on in which no call of it has succeeded.
\<close>

inductive never_authenticated :: "'w runtime \<Rightarrow> hoymiles_api \<Rightarrow> bool" for rt :: "'w runtime" where
  fresh: "never_authenticated rt (init_api u p)"
| failed_attempt:
    "never_authenticated rt (api s) \<Longrightarrow> fst (authenticate rt s) \<noteq> Inr True \<Longrightarrow>
     never_authenticated rt (api (snd (authenticate rt s)))"

subsection \<open>A small installation and some servers, for concrete runs\<close>

definition envelope :: "json \<Rightarrow> json" where
  "envelope d = JObj [(''status'', JStr ''0''), (''message'', JStr ''success''), (''data'', d)]"

definition rejection :: json where
  "rejection = JObj [(''status'', JStr ''1''), (''message'', JStr ''rejected'')]"

text \<open>A server whose answer depends on the request only; the world is the clock.\<close>

definition server_rt :: "(request \<Rightarrow> reply) \<Rightarrow> rat runtime" where
  "server_rt srv =
     \<lparr>rt_post = (\<lambda>rq w. (srv rq, w)), rt_time = (\<lambda>w. w),
      rt_md5 = (\<lambda>p. ''5f4dcc3b5aa765d61d8327deb882cf99''), rt_repr = (\<lambda>v. ''<object>'')\<rparr>"

definition demo_listing :: json where
  "demo_listing =
     JObj [(''list'',
       JList [JObj [(''id'', JInt 21), (''warn_data'', JObj [(''connect'', JBool True)]), (''model_no'', JStr ''DTU-A'')],
              JObj [(''id'', JInt 22), (''warn_data'', JObj [(''connect'', JBool False)]), (''model_no'', JStr ''DTU-B'')]])]"

definition demo_server :: "reply \<Rightarrow> (request \<Rightarrow> reply) \<Rightarrow> request \<Rightarrow> reply" where
  "demo_server login micro rq =
     (case req_url rq of
        API_AUTH_URL \<Rightarrow> login
      | API_STATIONS_URL \<Rightarrow> Json (envelope (JObj [(''list'', JList [])]))
      | API_DTU_URL \<Rightarrow> Json (envelope demo_listing)
      | API_MICROINVERTERS_URL \<Rightarrow> Json (envelope (JObj [(''list'', JList [])]))
      | API_REAL_TIME_DATA_URL \<Rightarrow> Json (envelope (JObj [(''real_power'', JStr ''412.5'')]))
      | API_MICRO_DETAIL_URL \<Rightarrow> micro rq
      | API_DTU_DETAIL_URL \<Rightarrow> Json (envelope (JObj [(''a'', JInt 1), (''b'', JInt 2)])))"

definition micro_ok :: "request \<Rightarrow> reply" where
  "micro_ok rq = Json (envelope (JObj [(''power'', JInt 3)]))"

text \<open>The microinverter 31 cannot be reached; the others answer.\<close>

definition micro_31_down :: "request \<Rightarrow> reply" where
  "micro_31_down rq =
     (if py_get (req_json rq) ''id'' JNull = Inr (JInt 31) then Failed else micro_ok rq)"

text \<open>A service that turns every request down with a well-formed reply.\<close>

definition reject_all :: "request \<Rightarrow> reply" where
  "reject_all rq = Json rejection"

definition login_ok :: reply where
  "login_ok = Json (envelope (JObj [(''token'', JStr ''T1'')]))"

definition login_without_token :: reply where
  "login_without_token = Json (envelope (JObj []))"

definition demo_api :: "json \<Rightarrow> rat \<Rightarrow> hoymiles_api" where
  "demo_api tok expiry =
     \<lparr>username = ''user'', password = ''password'', token = tok, token_expires_at = Finite expiry,
      token_valid_time = 7200\<rparr>"

definition demo_sys :: "hoymiles_api \<Rightarrow> rat \<Rightarrow> rat sys" where
  "demo_sys a now = \<lparr>api = a, world = now, sent = []\<rparr>"

definition dev :: "string \<Rightarrow> device" where
  "dev i = \<lparr>dev_id = i, dev_name = JNull\<rparr>"

definition demo_stations :: "(string \<times> json) list" where
  "demo_stations = [(''1'', JStr ''Home''), (''2'', JStr ''Barn'')]"

definition demo_dtus :: "(string \<times> device list) list" where
  "demo_dtus = [(''1'', [dev ''21'']), (''2'', [dev ''22''])]"

definition demo_micros :: "(string \<times> device list) list" where
  "demo_micros = [(''1'', [dev ''31'', dev ''32'']), (''2'', [dev ''33'', dev ''34''])]"

subsection \<open>Predicates on requests and on listing entries\<close>

definition data_only :: "request list \<Rightarrow> bool" where
  "data_only rqs = (\<forall>rq \<in> set rqs. req_url rq \<noteq> API_AUTH_URL)"

definition is_obj :: "json \<Rightarrow> bool" where
  "is_obj v = (case v of JObj kvs \<Rightarrow> True | _ \<Rightarrow> False)"

text \<open>The test of the listing scan: \<open>dtu_id == str(entry.get("id"))\<close>.\<close>

definition entry_matches :: "(json \<Rightarrow> string) \<Rightarrow> string \<Rightarrow> json \<Rightarrow> bool" where
  "entry_matches rp dtu_id x =
     (case py_get x ''id'' JNull of Inl e \<Rightarrow> False | Inr i \<Rightarrow> dtu_id = py_str rp i)"

subsection \<open>Replies\<close>

text \<open>
  A reply that is a success carrying \<open>d\<close>: a JSON object whose \<open>status\<close> is the
  string \<open>"0"\<close>, whose \<open>message\<close> is \<open>"success"\<close> and whose \<open>data\<close> is \<open>d\<close>.
\<close>

definition success_with :: "json \<Rightarrow> json \<Rightarrow> bool" where
  "success_with resp d =
     (case resp of
        JObj kvs \<Rightarrow>
          map_of kvs ''status'' = Some (JStr ''0'') \<and> map_of kvs ''message'' = Some (JStr ''success'')
          \<and> map_of kvs ''data'' = Some d
      | _ \<Rightarrow> False)"

text \<open>The JSON the demonstration server answers with (it always does).\<close>

definition demo_json :: "request \<Rightarrow> json" where
  "demo_json rq = (case demo_server login_ok micro_ok rq of Json j \<Rightarrow> j | _ \<Rightarrow> JNull)"

section \<open>Properties of rounding to doubles\<close>

subsection \<open>The exponent of a rational, and rounding at a known exponent\<close>

lemma pow2_powi: "pow2 e = 2 powi e"
  unfolding pow2_def power_int_def by (simp add: inverse_eq_divide power_one_over)

lemma pow2_pos [simp]: "0 < pow2 e"
  by (simp add: pow2_powi)

lemma pow2_mono: "e \<le> e' \<Longrightarrow> pow2 e \<le> pow2 e'"
  by (simp add: pow2_powi power_int_increasing)

lemma pow2_strict_mono: "e < e' \<Longrightarrow> pow2 e < pow2 e'"
  by (simp add: pow2_powi power_int_strict_increasing)

lemma pow2_diff: "pow2 (m - n) = pow2 m / pow2 n"
  by (simp add: pow2_powi power_int_diff)

lemma pow2_nat: "0 \<le> k \<Longrightarrow> pow2 k = 2 ^ nat k"
  by (simp add: pow2_def)

lemma bitlen_pow2_bounds:
  assumes "0 < n"
  shows "pow2 (bitlen n - 1) \<le> of_int n" "of_int n < pow2 (bitlen n)"
proof -
  from assms have b: "1 \<le> bitlen n" by (auto simp: bitlen_alt_def)
  from bitlen_bounds [OF assms] have "2 ^ nat (bitlen n - 1) \<le> n" "n < 2 ^ nat (bitlen n)" by simp_all
  then have "(of_int (2 ^ nat (bitlen n - 1)) :: rat) \<le> of_int n" "(of_int n :: rat) < of_int (2 ^ nat (bitlen n))"
    by (simp_all only: of_int_le_iff of_int_less_iff)
  then show "pow2 (bitlen n - 1) \<le> of_int n" "of_int n < pow2 (bitlen n)"
    using b by (simp_all add: pow2_nat)
qed

lemma rat_log2_bounds:
  assumes "0 < a"
  shows "pow2 (rat_log2 a) \<le> a \<and> a < pow2 (rat_log2 a + 1)"
proof -
  obtain n d where q: "quotient_of a = (n, d)" by (cases "quotient_of a")
  then have d: "0 < d" and a: "a = of_int n / of_int d"
    by (simp_all add: quotient_of_denom_pos quotient_of_div)
  with assms have n: "0 < n" by (simp add: zero_less_divide_iff)
  let ?e0 = "bitlen n - bitlen d"
  note bn = bitlen_pow2_bounds [OF n] and bd = bitlen_pow2_bounds [OF d]
  have dpos: "(0 :: rat) < of_int d" using d by simp
  have "a < pow2 (bitlen n) / pow2 (bitlen d - 1)"
  proof -
    have "a < pow2 (bitlen n) / of_int d" unfolding a using bn(2) dpos by (simp add: divide_strict_right_mono)
    also have "\<dots> \<le> pow2 (bitlen n) / pow2 (bitlen d - 1)"
      by (rule divide_left_mono) (use bd(1) dpos in \<open>simp_all add: less_imp_le\<close>)
    finally show ?thesis .
  qed
  then have up: "a < pow2 (?e0 + 1)" by (simp flip: pow2_diff) (simp add: algebra_simps)
  have "pow2 (bitlen n - 1) / pow2 (bitlen d) < a"
  proof -
    have "pow2 (bitlen n - 1) / pow2 (bitlen d) < pow2 (bitlen n - 1) / of_int d"
      by (rule divide_strict_left_mono) (use bd(2) dpos in simp_all)
    also have "\<dots> \<le> a" unfolding a using bn(1) dpos by (simp add: divide_right_mono)
    finally show ?thesis .
  qed
  then have low: "pow2 (?e0 - 1) < a" by (simp flip: pow2_diff) (simp add: algebra_simps)
  show ?thesis
  proof (cases "pow2 ?e0 \<le> a")
    case True
    then have "rat_log2 a = ?e0" by (simp add: rat_log2_def q)
    with True up show ?thesis by simp
  next
    case False
    then have "rat_log2 a = ?e0 - 1" by (simp add: rat_log2_def q)
    with False low show ?thesis by simp
  qed
qed

lemma rat_log2_eqI:
  assumes "pow2 e \<le> a" "a < pow2 (e + 1)"
  shows "rat_log2 a = e"
proof -
  have "0 < a" using assms(1) pow2_pos [of e] by linarith
  note b = rat_log2_bounds [OF this]
  show ?thesis
  proof (rule ccontr)
    assume "rat_log2 a \<noteq> e"
    then consider "rat_log2 a + 1 \<le> e" | "e + 1 \<le> rat_log2 a" by linarith
    then show False
    proof cases
      case 1
      from pow2_mono [OF this] b assms show False by linarith
    next
      case 2
      from pow2_mono [OF this] b assms show False by linarith
    qed
  qed
qed

lemma floor_rat_numeral [simp]: "\<lfloor>numeral a / numeral b :: rat\<rfloor> = numeral a div numeral b"
  using floor_divide_of_int_eq [of "numeral a" "numeral b", where ?'a = rat] by simp

lemma ceiling_rat_numeral [simp]:
  "\<lceil>- (numeral a / numeral b) :: rat\<rceil> = - (numeral a div numeral b)"
  by (simp add: ceiling_def)

lemma nearest_mag_at:
  assumes "pow2 e \<le> a" "a < pow2 (e + 1)"
  shows "nearest_mag a =
     of_int (round_half_even (a / pow2 (max (e - 52) (- 1074)))) * pow2 (max (e - 52) (- 1074))"
  unfolding nearest_mag_def ulp_exp_def rat_log2_eqI [OF assms] ..

lemma round_double_at:
  assumes "pow2 e \<le> \<bar>q\<bar>" "\<bar>q\<bar> < pow2 (e + 1)"
  shows "round_double q =
     (let v = of_int (round_half_even (\<bar>q\<bar> / pow2 (max (e - 52) (- 1074)))) * pow2 (max (e - 52) (- 1074))
      in if pow2 1024 \<le> v then (if q < 0 then NegInf else PosInf)
         else Finite (if q < 0 then - v else v))"
proof -
  have "0 < \<bar>q\<bar>" using assms(1) pow2_pos [of e] by linarith
  then have "q \<noteq> 0" by simp
  then show ?thesis unfolding round_double_def Let_def nearest_mag_at [OF assms] by simp
qed

subsection \<open>Integers that are doubles\<close>

lemma round_half_even_int [simp]: "round_half_even (of_int k) = k"
  by (simp add: round_half_even_def)

lemma pow2_0 [simp]: "pow2 0 = 1"
  by (simp add: pow2_def)

lemma nearest_mag_small_int:
  assumes "1 \<le> n" "n \<le> 2 ^ 53"
  shows "nearest_mag (of_int n) = of_int n"
proof -
  define a :: rat where "a = of_int n"
  define e where "e = rat_log2 a"
  have a1: "1 \<le> a" using assms(1) by (simp add: a_def)
  have a53: "a \<le> 2 ^ 53"
  proof -
    have "rat_of_int n \<le> rat_of_int (2 ^ 53)" using assms(2) by (simp only: of_int_le_iff)
    then show ?thesis by (simp add: a_def)
  qed
  from a1 have apos: "0 < a" by simp
  note b = rat_log2_bounds [OF apos, folded e_def]
  have e0: "0 \<le> e"
  proof (rule ccontr)
    assume "\<not> 0 \<le> e"
    then have "e + 1 \<le> 0" by simp
    from pow2_mono [OF this] b a1 show False by simp
  qed
  have e53: "e \<le> 53"
  proof (rule ccontr)
    assume "\<not> e \<le> 53"
    then have "54 \<le> e" by simp
    from pow2_mono [OF this] b a53 show False by (simp add: pow2_def)
  qed
  define u where "u = ulp_exp a"
  have u: "u = e - 52" using e0 by (simp add: u_def ulp_exp_def e_def)
  have "\<exists>k. a / pow2 u = of_int k"
  proof (cases "e \<le> 52")
    case True
    then have "pow2 u = 1 / 2 ^ nat (52 - e)" using u by (simp add: pow2_def)
    then have "a / pow2 u = of_int (n * 2 ^ nat (52 - e))" by (simp add: a_def)
    then show ?thesis by blast
  next
    case False
    with e53 have e: "e = 53" by simp
    with b a53 have "a = 2 ^ 53" by (simp add: pow2_def)
    then have "a / pow2 u = of_int (2 ^ 52)" using u e by (simp add: pow2_def)
    then show ?thesis by blast
  qed
  then obtain k where k: "a / pow2 u = of_int k" by blast
  then have "of_int (round_half_even (a / pow2 u)) * pow2 u = a"
    using pow2_pos [of u] by (simp add: field_simps)
  then show ?thesis by (simp add: nearest_mag_def a_def u_def)
qed

lemma round_double_small_int:
  assumes "\<bar>n\<bar> \<le> 2 ^ 53"
  shows "round_double (of_int n) = Finite (of_int n)"
proof (cases "n = 0")
  case True
  then show ?thesis by (simp add: round_double_def)
next
  case False
  with assms have "1 \<le> \<bar>n\<bar>" "\<bar>n\<bar> \<le> 2 ^ 53" by simp_all
  from nearest_mag_small_int [OF this] have v: "nearest_mag \<bar>rat_of_int n\<bar> = \<bar>rat_of_int n\<bar>"
    by (simp flip: of_int_abs)
  have "rat_of_int \<bar>n\<bar> \<le> rat_of_int (2 ^ 53)" using assms by (simp only: of_int_le_iff)
  then have lt: "\<not> pow2 1024 \<le> \<bar>rat_of_int n\<bar>" by (simp add: pow2_def)
  show ?thesis using False v lt by (simp add: round_double_def Let_def abs_if)
qed

subsection \<open>Rounding keeps the order\<close>

lemma round_half_even_mono:
  assumes "x \<le> y"
  shows "round_half_even x \<le> round_half_even y"
proof -
  have fx: "of_int \<lfloor>x\<rfloor> \<le> x" "x < of_int \<lfloor>x\<rfloor> + 1" and fy: "of_int \<lfloor>y\<rfloor> \<le> y" "y < of_int \<lfloor>y\<rfloor> + 1"
    by linarith+
  have bx: "\<lfloor>x\<rfloor> \<le> round_half_even x" "round_half_even x \<le> \<lfloor>x\<rfloor> + 1"
    and "\<lfloor>y\<rfloor> \<le> round_half_even y"
    by (simp_all add: round_half_even_def Let_def)
  from assms have "\<lfloor>x\<rfloor> \<le> \<lfloor>y\<rfloor>" by (rule floor_mono)
  then consider "\<lfloor>x\<rfloor> = \<lfloor>y\<rfloor>" | "\<lfloor>x\<rfloor> + 1 \<le> \<lfloor>y\<rfloor>" by linarith
  then show ?thesis
  proof cases
    case 1
    with assms show ?thesis by (auto simp: round_half_even_def Let_def)
  next
    case 2
    with bx(2) \<open>\<lfloor>y\<rfloor> \<le> round_half_even y\<close> show ?thesis by linarith
  qed
qed

lemma round_half_even_le: "x \<le> of_int k \<Longrightarrow> round_half_even x \<le> k"
  using round_half_even_mono [of x "of_int k"] by simp

lemma round_half_even_ge: "of_int k \<le> x \<Longrightarrow> k \<le> round_half_even x"
  using round_half_even_mono [of "of_int k" x] by simp

lemma rat_log2_mono:
  assumes "0 < x" "x \<le> y"
  shows "rat_log2 x \<le> rat_log2 y"
proof (rule ccontr)
  assume "\<not> rat_log2 x \<le> rat_log2 y"
  then have "rat_log2 y + 1 \<le> rat_log2 x" by simp
  from pow2_mono [OF this] rat_log2_bounds [OF assms(1)] rat_log2_bounds [of y] assms
  show False by linarith
qed

lemma pow2_nonneg [simp]: "0 \<le> pow2 e"
  using pow2_pos [of e] by (rule less_imp_le)

lemma pow2_of_int: "0 \<le> k \<Longrightarrow> pow2 k = of_int (2 ^ nat k)"
  by (simp add: pow2_def)

lemma pow2_add: "pow2 (m + n) = pow2 m * pow2 n"
  by (simp add: pow2_powi power_int_add)

lemma nearest_mag_mono:
  assumes "0 < x" "x \<le> y"
  shows "nearest_mag x \<le> nearest_mag y"
proof -
  from assms have ypos: "0 < y" by simp
  note bx = rat_log2_bounds [OF assms(1)] and bdy = rat_log2_bounds [OF ypos]
  have le: "ulp_exp x \<le> ulp_exp y"
    using rat_log2_mono [OF assms] by (simp add: ulp_exp_def)
  show ?thesis
  proof (cases "ulp_exp x = ulp_exp y")
    case True
    have "x / pow2 (ulp_exp y) \<le> y / pow2 (ulp_exp y)"
      using assms(2) by (intro divide_right_mono) simp_all
    from round_half_even_mono [OF this]
    have "rat_of_int (round_half_even (x / pow2 (ulp_exp y))) \<le> of_int (round_half_even (y / pow2 (ulp_exp y)))"
      by (simp only: of_int_le_iff)
    then show ?thesis using pow2_pos [of "ulp_exp y"] by (simp add: nearest_mag_def True)
  next
    case False
    with le have lt: "ulp_exp x < ulp_exp y" by simp
    define ey where "ey = rat_log2 y"
    define ux where "ux = ulp_exp x"
    have uy: "ulp_exp y = ey - 52" and ex: "rat_log2 x + 1 \<le> ey" and d: "53 \<le> ey - ux"
      using lt by (auto simp: ulp_exp_def ey_def ux_def)
    have "x < pow2 ey" using bx pow2_mono [OF ex] by linarith
    then have "x / pow2 ux < pow2 ey / pow2 ux"
      by (intro divide_strict_right_mono) simp_all
    also have "\<dots> = of_int (2 ^ nat (ey - ux))" using d by (simp flip: pow2_diff add: pow2_of_int)
    finally have "round_half_even (x / pow2 ux) \<le> 2 ^ nat (ey - ux)"
      by (intro round_half_even_le) simp
    then have "rat_of_int (round_half_even (x / pow2 ux)) \<le> rat_of_int (2 ^ nat (ey - ux))"
      by (simp only: of_int_le_iff)
    also have "\<dots> = pow2 (ey - ux)" using d by (simp add: pow2_of_int)
    finally have "nearest_mag x \<le> pow2 (ey - ux) * pow2 ux"
      using pow2_pos [of ux] by (simp add: nearest_mag_def ux_def)
    then have low: "nearest_mag x \<le> pow2 ey" by (simp flip: pow2_add)
    have "rat_of_int (2 ^ nat 52) = pow2 (ey - ulp_exp y)" by (simp add: uy pow2_def)
    also have "\<dots> = pow2 ey / pow2 (ulp_exp y)" by (rule pow2_diff)
    also have "\<dots> \<le> y / pow2 (ulp_exp y)"
      using bdy by (intro divide_right_mono) (simp_all add: ey_def)
    finally have "2 ^ nat 52 \<le> round_half_even (y / pow2 (ulp_exp y))"
      by (rule round_half_even_ge)
    then have "rat_of_int (2 ^ nat 52) \<le> rat_of_int (round_half_even (y / pow2 (ulp_exp y)))"
      by (simp only: of_int_le_iff)
    then have "pow2 52 * pow2 (ulp_exp y) \<le> nearest_mag y"
      using pow2_pos [of "ulp_exp y"] by (simp add: nearest_mag_def pow2_def)
    then have "pow2 ey \<le> nearest_mag y" by (simp flip: pow2_add add: uy)
    with low show ?thesis by linarith
  qed
qed

lemma is_double_nearest: "0 < t \<Longrightarrow> is_double t \<Longrightarrow> nearest_mag t = t"
  by (auto simp: is_double_def round_double_def Let_def split: if_splits)

text \<open>
  The nearest double of a sum \<open>x\<close> between 1 and \<open>2^53\<close>: it is finite, no double
  at or above \<open>x\<close> is below it, and it is not below the integer part of \<open>x\<close>.
\<close>

lemma round_double_between:
  assumes "1 \<le> x" "x \<le> 2 ^ 53"
  shows "\<exists>v. round_double x = Finite v \<and> of_int \<lfloor>x\<rfloor> \<le> v \<and> (\<forall>t. is_double t \<and> x \<le> t \<longrightarrow> v \<le> t)"
proof -
  from assms have xpos: "0 < x" by simp
  have top: "nearest_mag (2 ^ 53) = 2 ^ 53"
    using nearest_mag_small_int [of "2 ^ 53"] by simp
  from nearest_mag_mono [OF xpos assms(2)] top have "nearest_mag x \<le> 2 ^ 53" by simp
  then have fin: "\<not> pow2 1024 \<le> nearest_mag x" by (simp add: pow2_def)
  have r: "round_double x = Finite (nearest_mag x)"
    using xpos fin by (simp add: round_double_def Let_def)
  have f1: "1 \<le> \<lfloor>x\<rfloor>" using assms(1) by (simp add: le_floor_iff)
  have "rat_of_int \<lfloor>x\<rfloor> \<le> x" by linarith
  then have f2: "\<lfloor>x\<rfloor> \<le> 2 ^ 53" using assms(2) by (simp add: floor_le_iff) 
  have fpos: "0 < rat_of_int \<lfloor>x\<rfloor>" using f1 by simp
  from nearest_mag_mono [OF fpos \<open>rat_of_int \<lfloor>x\<rfloor> \<le> x\<close>] nearest_mag_small_int [OF f1 f2]
  have low: "of_int \<lfloor>x\<rfloor> \<le> nearest_mag x" by simp
  have up: "nearest_mag x \<le> t" if "is_double t" "x \<le> t" for t
  proof -
    from that xpos have "0 < t" by simp
    from nearest_mag_mono [OF xpos that(2)] is_double_nearest [OF this that(1)] show ?thesis by simp
  qed
  show ?thesis using r low up by blast
qed

lemma float_add_8200: "float_add 1000 7200 = Finite 8200"
  using round_double_small_int [of 8200] by (simp add: float_add_def)



lemma float_add_0_7:
  "float_add (3152519739159347 / 4503599627370496) 7200 = Finite (7917253378126643 / 1099511627776)"
  unfolding float_add_def
  by (subst round_double_at [where e = 12]) (simp_all add: pow2_def round_half_even_def Let_def)

lemma is_double_0_7: "is_double (3152519739159347 / 4503599627370496)"
  unfolding is_double_def
  by (subst round_double_at [where e = "- 1"]) (simp_all add: pow2_def round_half_even_def Let_def)

lemma is_double_7200_7: "is_double (7917253378126643 / 1099511627776)"
  unfolding is_double_def
  by (subst round_double_at [where e = 12]) (simp_all add: pow2_def round_half_even_def Let_def)

section \<open>Properties of the transport and of authentication\<close>

lemma http_post_api [simp]: "api (snd (http_post rt rq s)) = api s"
  by (simp add: http_post_def split: prod.splits)

lemma http_post_sent [simp]: "sent (snd (http_post rt rq s)) = sent s @ [rq]"
  by (simp add: http_post_def split: prod.splits)

lemma http_post_world [simp]: "world (snd (http_post rt rq s)) = snd (rt_post rt rq (world s))"
  by (simp add: http_post_def split: prod.splits)

lemma http_post_fst [simp]: "fst (http_post rt rq s) = fst (rt_post rt rq (world s))"
  by (simp add: http_post_def split: prod.splits)

lemma request_json_api [simp]: "api (snd (request_json rt rq s)) = api s"
  by (cases "http_post rt rq s")
    (auto simp: request_json_def split: reply.splits dest: arg_cong [where f = "\<lambda>p. api (snd p)"])

lemma request_json_sent [simp]: "sent (snd (request_json rt rq s)) = sent s @ [rq]"
  by (cases "http_post rt rq s")
    (auto simp: request_json_def split: reply.splits dest: arg_cong [where f = "\<lambda>p. sent (snd p)"])

lemma request_json_world [simp]:
  "world (snd (request_json rt rq s)) = snd (rt_post rt rq (world s))"
  by (cases "http_post rt rq s")
    (auto simp: request_json_def split: reply.splits dest: arg_cong [where f = "\<lambda>p. world (snd p)"])

lemma request_json_fst:
  "fst (request_json rt rq s) =
     (case fst (rt_post rt rq (world s)) of
        Failed \<Rightarrow> Inl TransportFailure
      | NotJson \<Rightarrow> Inl ProtocolFailure
      | Json j \<Rightarrow> Inr j)"
  by (cases "http_post rt rq s")
    (auto simp: request_json_def split: reply.splits dest: arg_cong [where f = fst])

lemma authenticate_keeps:
  "fst (authenticate rt s) \<noteq> Inr True \<Longrightarrow> api (snd (authenticate rt s)) = api s"
  by (cases "request_json rt (auth_request rt (api s)) s")
    (auto simp: authenticate_def and_then_def split: sum.splits bool.splits
      dest: arg_cong [where f = "\<lambda>p. api (snd p)"])

lemma authenticate_sent [simp]:
  "sent (snd (authenticate rt s)) = sent s @ [auth_request rt (api s)]"
  by (cases "request_json rt (auth_request rt (api s)) s")
    (auto simp: authenticate_def and_then_def split: sum.splits bool.splits
      dest: arg_cong [where f = "\<lambda>p. sent (snd p)"])

lemma authenticate_success:
  assumes "authenticate rt s = (Inr True, s')"
  shows "token_expires_at (api s') = float_add (rt_time rt (world s')) (token_valid_time (api s))"
    and "token_valid_time (api s') = token_valid_time (api s)"
    and "world s' = snd (rt_post rt (auth_request rt (api s)) (world s))"
  using assms
    request_json_api [of rt "auth_request rt (api s)" s]
    request_json_world [of rt "auth_request rt (api s)" s]
  by (cases "request_json rt (auth_request rt (api s)) s";
      auto simp: authenticate_def and_then_def split: sum.splits bool.splits)+


text \<open>
  The expiry recorded by a successful login is the double nearest to the clock
  reading plus 7200. For a clock reading \<open>T\<close> from 0 to \<open>2^53 - 7200\<close> the session
  is expired at every clock reading from \<open>T + 7200\<close> on and at no time up to
  \<open>T + 7200 - 1\<close>.
\<close>

lemma expiry_window:
  assumes "authenticate rt s = (Inr True, s')" and "token_valid_time (api s) = 7200"
    and "0 \<le> rt_time rt (world s')" and "rt_time rt (world s') \<le> 2 ^ 53 - 7200"
  shows "is_double t \<Longrightarrow> rt_time rt (world s') + 7200 \<le> t \<Longrightarrow> is_token_expired (api s') t"
    and "t \<le> rt_time rt (world s') + 7200 - 1 \<Longrightarrow> \<not> is_token_expired (api s') t"
proof -
  define x where "x = rt_time rt (world s') + 7200"
  have e: "token_expires_at (api s') = round_double x"
    using authenticate_success(1) [OF assms(1)] assms(2) by (simp add: float_add_def x_def)
  have "1 \<le> x" "x \<le> 2 ^ 53" using assms(3,4) by (simp_all add: x_def)
  from round_double_between [OF this] obtain v where v: "round_double x = Finite v"
    "of_int \<lfloor>x\<rfloor> \<le> v" "\<forall>t. is_double t \<and> x \<le> t \<longrightarrow> v \<le> t"
    by blast
  show "is_token_expired (api s') t" if "is_double t" "rt_time rt (world s') + 7200 \<le> t"
  proof -
    from that v(3) have "v \<le> t" by (simp add: x_def)
    then show ?thesis by (simp add: is_token_expired_def e v(1))
  qed
  show "\<not> is_token_expired (api s') t" if "t \<le> rt_time rt (world s') + 7200 - 1"
  proof -
    have "x - 1 < of_int \<lfloor>x\<rfloor>" by linarith
    with that v(2) have "t < v" by (simp add: x_def)
    then show ?thesis by (simp add: is_token_expired_def e v(1))
  qed
qed

text \<open>
  Claim C7. \<open>authenticate\<close> leaves the stored token and expiry as they were whenever
  it does not succeed: whatever it returns or raises other than \<open>True\<close>, the client
  object is unchanged; a well-formed answer that is not a success makes it return
  \<open>False\<close>; a transport failure and a body that is not JSON make it raise.
\<close>

theorem authenticate_fail_closed:
  "(fst (authenticate rt s) \<noteq> Inr True \<longrightarrow> api (snd (authenticate rt s)) = api s)
   \<and> (\<forall>resp. fst (rt_post rt (auth_request rt (api s)) (world s)) = Json resp
              \<and> is_success resp = Inr False
        \<longrightarrow> fst (authenticate rt s) = Inr False)
   \<and> (fst (rt_post rt (auth_request rt (api s)) (world s)) = Failed
        \<longrightarrow> fst (authenticate rt s) = Inl TransportFailure)
   \<and> (fst (rt_post rt (auth_request rt (api s)) (world s)) = NotJson
        \<longrightarrow> fst (authenticate rt s) = Inl ProtocolFailure)"
proof -
  obtain r s1 where rq: "request_json rt (auth_request rt (api s)) s = (r, s1)"
    by (cases "request_json rt (auth_request rt (api s)) s")
  have r: "r = (case fst (rt_post rt (auth_request rt (api s)) (world s)) of
                  Failed \<Rightarrow> Inl TransportFailure
                | NotJson \<Rightarrow> Inl ProtocolFailure
                | Json j \<Rightarrow> Inr j)"
    using request_json_fst [of rt "auth_request rt (api s)" s] rq by simp
  show ?thesis
    using authenticate_keeps [of rt s] r rq
    by (auto simp: authenticate_def and_then_def split: sum.splits bool.splits)
qed

theorem authenticate_fail_closed_witness:
  "fst (authenticate (server_rt (demo_server (Json rejection) micro_ok))
         (demo_sys (demo_api (JStr ''old'') 100) 1000)) = Inr False
   \<and> api (snd (authenticate (server_rt (demo_server (Json rejection) micro_ok))
         (demo_sys (demo_api (JStr ''old'') 100) 1000))) = demo_api (JStr ''old'') 100
   \<and> fst (authenticate (server_rt (demo_server Failed micro_ok))
         (demo_sys (demo_api (JStr ''old'') 100) 1000)) = Inl TransportFailure
   \<and> api (snd (authenticate (server_rt (demo_server Failed micro_ok))
         (demo_sys (demo_api (JStr ''old'') 100) 1000))) = demo_api (JStr ''old'') 100
   \<and> fst (authenticate (server_rt (demo_server NotJson micro_ok))
         (demo_sys (demo_api (JStr ''old'') 100) 1000)) = Inl ProtocolFailure
   \<and> api (snd (authenticate (server_rt (demo_server NotJson micro_ok))
         (demo_sys (demo_api (JStr ''old'') 100) 1000))) = demo_api (JStr ''old'') 100"
  using
    authenticate_fail_closed [of "server_rt (demo_server (Json rejection) micro_ok)"
      "demo_sys (demo_api (JStr ''old'') 100) 1000"]
    authenticate_fail_closed [of "server_rt (demo_server Failed micro_ok)"
      "demo_sys (demo_api (JStr ''old'') 100) 1000"]
    authenticate_fail_closed [of "server_rt (demo_server NotJson micro_ok)"
      "demo_sys (demo_api (JStr ''old'') 100) 1000"]
  by (simp add: server_rt_def demo_server_def demo_sys_def auth_request_def rejection_def
      is_success_def)

text \<open>
  Below \<open>T + 7200\<close> the rounding of the sum shows: a login at the clock reading
  0.7 records an expiry that lies before \<open>0.7 + 7200\<close>, and the session is expired
  at that clock reading.
\<close>

lemma expiry_rounds_down:
  "is_double (3152519739159347 / 4503599627370496)
   \<and> token_expires_at (api (snd (authenticate (server_rt (demo_server login_ok micro_ok))
         (demo_sys (init_api ''user'' ''password'') (3152519739159347 / 4503599627370496)))))
       = Finite (7917253378126643 / 1099511627776)
   \<and> (7917253378126643 / 1099511627776 :: rat) < 3152519739159347 / 4503599627370496 + 7200
   \<and> is_double (7917253378126643 / 1099511627776)
   \<and> is_token_expired (api (snd (authenticate (server_rt (demo_server login_ok micro_ok))
         (demo_sys (init_api ''user'' ''password'') (3152519739159347 / 4503599627370496)))))
         (7917253378126643 / 1099511627776)"
  by (simp add: authenticate_def and_then_def request_json_def http_post_def server_rt_def
      demo_server_def demo_sys_def auth_request_def login_ok_def envelope_def is_success_def
      init_api_def float_add_0_7 is_double_0_7 is_double_7200_7 is_token_expired_def)




lemma and_then_sel:
  "and_then m f = (case fst m of Inl e \<Rightarrow> (Inl e, snd m) | Inr v \<Rightarrow> f v (snd m))"
  by (cases m) (simp add: and_then_def split: sum.splits)

subsection \<open>A null token and expiry\<close>

lemma never_authenticated_fields:
  "never_authenticated rt a \<Longrightarrow> token a = JNull \<and> token_expires_at a = Finite 0"
proof (induction rule: never_authenticated.induct)
  case (fresh u p)
  show ?case by (simp add: init_api_def)
next
  case (failed_attempt s)
  then show ?case using authenticate_keeps [of rt s] by simp
qed

lemma authenticate_without_token:
  assumes "fst (rt_post rt (auth_request rt (api s)) (world s)) = Json resp"
    and "is_success resp = Inr True"
    and "py_get resp ''data'' (JObj []) = Inr (JObj d)"
    and "map_of d ''token'' = None"
  shows "fst (authenticate rt s) = Inr True"
    and "token (api (snd (authenticate rt s))) = JNull"
  using assms request_json_fst [of rt "auth_request rt (api s)" s]
  by (auto simp: authenticate_def and_then_sel split: sum.splits bool.splits)

lemma demo_login_without_token:
  "authenticate (server_rt (demo_server login_without_token micro_ok))
     (demo_sys (init_api ''user'' ''password'') 1000)
   = (Inr True,
      \<lparr>api = demo_api JNull 8200, world = 1000,
       sent = [auth_request (server_rt (demo_server login_without_token micro_ok))
                 (init_api ''user'' ''password'')]\<rparr>)"
  by (simp add: authenticate_def and_then_def request_json_def http_post_def server_rt_def
      demo_server_def demo_sys_def auth_request_def login_without_token_def envelope_def
      is_success_def init_api_def demo_api_def float_add_8200)

text \<open>
  Claim C4, as stated, fails: the service accepts the login but its \<open>data\<close> carries
  no \<open>token\<close>. The stored token is then \<open>None\<close>, and at the very moment of the
  answer (clock 1000) \<open>is_token_expired\<close> is false.
\<close>

theorem null_token_not_expired_counterexample:
  "token (api (snd (authenticate (server_rt (demo_server login_without_token micro_ok))
       (demo_sys (init_api ''user'' ''password'') 1000)))) = JNull
   \<and> \<not> is_token_expired (api (snd (authenticate (server_rt (demo_server login_without_token micro_ok))
       (demo_sys (init_api ''user'' ''password'') 1000)))) 1000"
  by (simp add: demo_login_without_token demo_api_def is_token_expired_def)

text \<open>
  Claim C4, amended. \<open>is_token_expired\<close> compares the clock with the recorded
  expiry and never looks at the token. In every state from construction on in
  which no authentication has succeeded, the token is \<open>None\<close> and the session is
  expired at any clock reading that is not negative. After a successful
  authentication whose \<open>data\<close> has no \<open>token\<close> field the token is \<open>None\<close> as well,
  but the session is not expired: with the clock reading \<open>T\<close> at that answer (from
  0 to \<open>2^53 - 7200\<close>) it is not expired at any time up to \<open>T + 7200 - 1\<close>, one
  second before the validity window has passed.
\<close>

theorem null_token_expiry:
  "(never_authenticated rt a \<and> 0 \<le> now \<longrightarrow> token a = JNull \<and> is_token_expired a now)
   \<and> (fst (rt_post rt (auth_request rt (api s)) (world s)) = Json resp
        \<and> is_success resp = Inr True
        \<and> py_get resp ''data'' (JObj []) = Inr (JObj d)
        \<and> map_of d ''token'' = None
        \<and> token_valid_time (api s) = 7200
        \<and> 0 \<le> rt_time rt (world (snd (authenticate rt s)))
        \<and> rt_time rt (world (snd (authenticate rt s))) \<le> 2 ^ 53 - 7200
        \<and> t \<le> rt_time rt (world (snd (authenticate rt s))) + 7200 - 1
      \<longrightarrow> fst (authenticate rt s) = Inr True
          \<and> token (api (snd (authenticate rt s))) = JNull
          \<and> \<not> is_token_expired (api (snd (authenticate rt s))) t)"
proof -
  have part1: "token a = JNull \<and> is_token_expired a now"
    if "never_authenticated rt a" "0 \<le> now"
    using that never_authenticated_fields [of rt a] by (simp add: is_token_expired_def)
  have part2: "fst (authenticate rt s) = Inr True
          \<and> token (api (snd (authenticate rt s))) = JNull
          \<and> \<not> is_token_expired (api (snd (authenticate rt s))) t"
    if h: "fst (rt_post rt (auth_request rt (api s)) (world s)) = Json resp"
      "is_success resp = Inr True" "py_get resp ''data'' (JObj []) = Inr (JObj d)"
      "map_of d ''token'' = None"
      and w: "token_valid_time (api s) = 7200"
        "0 \<le> rt_time rt (world (snd (authenticate rt s)))"
        "rt_time rt (world (snd (authenticate rt s))) \<le> 2 ^ 53 - 7200"
      and t: "t \<le> rt_time rt (world (snd (authenticate rt s))) + 7200 - 1"
  proof -
    have ok: "fst (authenticate rt s) = Inr True"
      and tok: "token (api (snd (authenticate rt s))) = JNull"
      using authenticate_without_token [OF h] by simp_all
    from ok have "authenticate rt s = (Inr True, snd (authenticate rt s))"
      by (cases "authenticate rt s") simp
    from expiry_window(2) [OF this w t]
    have "\<not> is_token_expired (api (snd (authenticate rt s))) t" .
    with ok tok show ?thesis by simp
  qed
  show ?thesis using part1 part2 by blast
qed

theorem null_token_expiry_witness:
  "never_authenticated (server_rt (demo_server login_without_token micro_ok))
     (init_api ''user'' ''password'')
   \<and> token (init_api ''user'' ''password'') = JNull
   \<and> is_token_expired (init_api ''user'' ''password'') 1000
   \<and> fst (authenticate (server_rt (demo_server login_without_token micro_ok))
         (demo_sys (init_api ''user'' ''password'') 1000)) = Inr True
   \<and> token (api (snd (authenticate (server_rt (demo_server login_without_token micro_ok))
         (demo_sys (init_api ''user'' ''password'') 1000)))) = JNull
   \<and> \<not> is_token_expired (api (snd (authenticate (server_rt (demo_server login_without_token micro_ok))
         (demo_sys (init_api ''user'' ''password'') 1000)))) 8199"
proof -
  let ?rt = "server_rt (demo_server login_without_token micro_ok)"
  let ?s = "demo_sys (init_api ''user'' ''password'') 1000"
  have n: "never_authenticated ?rt (init_api ''user'' ''password'')"
    by (rule never_authenticated.fresh)
  have p: "fst (rt_post ?rt (auth_request ?rt (api ?s)) (world ?s)) = Json (envelope (JObj []))"
    by (simp add: server_rt_def demo_server_def auth_request_def login_without_token_def)
  have q: "is_success (envelope (JObj [])) = Inr True"
    "py_get (envelope (JObj [])) ''data'' (JObj []) = Inr (JObj [])"
    "map_of ([] :: (string \<times> json) list) ''token'' = None"
    by (simp_all add: is_success_def envelope_def)
  have w: "token_valid_time (api ?s) = 7200"
    "0 \<le> rt_time ?rt (world (snd (authenticate ?rt ?s)))"
    "rt_time ?rt (world (snd (authenticate ?rt ?s))) \<le> 2 ^ 53 - 7200"
    "(8199 :: rat) \<le> rt_time ?rt (world (snd (authenticate ?rt ?s))) + 7200 - 1"
    by (simp_all add: demo_login_without_token) (simp_all add: server_rt_def demo_sys_def init_api_def)
  show ?thesis
    using null_token_expiry [of ?rt "init_api ''user'' ''password''" 1000 ?s "envelope (JObj [])" "[]" 8199]
      n p q w
    by simp
qed

subsection \<open>What the operations test before they authenticate\<close>

lemma ensure_token_sent:
  "sent (snd (ensure_token rt s)) =
     sent s @ (if truthy (token (api s)) then [] else [auth_request rt (api s)])"
  by (simp add: ensure_token_def and_then_sel split: sum.splits)

lemma url_simps [simp]:
  "req_url (stations_request tok) = API_STATIONS_URL"
  "req_url (page_request u tok sid) = u"
  "req_url (station_request tok sid) = API_REAL_TIME_DATA_URL"
  "req_url (detail_request u tok did sid) = u"
  "req_url (auth_request rt a) = API_AUTH_URL"
  by (simp_all add: stations_request_def page_request_def station_request_def detail_request_def
      auth_request_def)

lemma get_stations_sent:
  "\<exists>ds. sent (snd (get_stations rt s)) = sent (snd (ensure_token rt s)) @ ds \<and> data_only ds"
  by (auto simp: get_stations_def and_then_sel data_only_def split: sum.splits)

lemma list_devices_sent:
  "u \<noteq> API_AUTH_URL \<Longrightarrow>
   \<exists>ds. sent (snd (list_devices u f rt sid s)) = sent (snd (ensure_token rt s)) @ ds \<and> data_only ds"
  by (auto simp: list_devices_def and_then_sel data_only_def split: sum.splits option.splits)

lemma station_sent:
  "\<exists>ds. sent (snd (get_real_time_data_station rt sid s)) = sent (snd (ensure_token rt s)) @ ds
      \<and> data_only ds"
  by (auto simp: get_real_time_data_station_def and_then_sel data_only_def
      split: sum.splits option.splits)

lemma micro_sent:
  "\<exists>ds. sent (snd (get_real_time_data_microinverter rt sid mid s))
        = sent (snd (ensure_token rt s)) @ ds \<and> data_only ds"
  by (auto simp: get_real_time_data_microinverter_def and_then_sel data_only_def
      split: sum.splits option.splits)

lemma dtu_sent:
  "\<exists>ds. sent (snd (get_real_time_data_dtu rt sid did s)) = sent (snd (ensure_token rt s)) @ ds
      \<and> data_only ds"
  by (auto simp: get_real_time_data_dtu_def and_then_sel data_only_def
      split: sum.splits option.splits bool.splits)

lemma after_operation_sent:
  "\<exists>ds. sent (after_operation rt op s) = sent (snd (ensure_token rt s)) @ ds \<and> data_only ds"
  by (cases op)
    (simp_all add: get_stations_sent station_sent micro_sent dtu_sent get_dtus_def
      get_microinverters_def list_devices_sent)

lemma demo_ids:
  "py_int_of_str ''1'' = Some 1" "py_int_of_str ''2'' = Some 2"
  "py_int_of_str ''21'' = Some 21" "py_int_of_str ''22'' = Some 22"
  "py_int_of_str ''31'' = Some 31" "py_int_of_str ''32'' = Some 32"
  "py_int_of_str ''33'' = Some 33" "py_int_of_str ''34'' = Some 34"
  by (simp_all add: py_int_of_str_def strip_with_def num_space_def is_digit_def split_sign_def
      digits_val_def digit_val_def)

lemma demo_texts:
  "show_int 21 = ''21''" "show_int 22 = ''22''"
  by code_simp+

text \<open>
  Claim C3, as stated, fails: with a token that is stored but has expired (expiry
  100, clock 1000), listing the stations and fetching a microinverter each issue
  their data request at once, with the stale token and no login before it.
\<close>

theorem expired_token_not_renewed_counterexample:
  "is_token_expired (demo_api (JStr ''old'') 100) 1000
   \<and> sent (snd (get_stations (server_rt (demo_server login_ok micro_ok))
        (demo_sys (demo_api (JStr ''old'') 100) 1000))) = [stations_request (JStr ''old'')]
   \<and> sent (snd (get_real_time_data_microinverter (server_rt (demo_server login_ok micro_ok)) ''1'' ''31''
        (demo_sys (demo_api (JStr ''old'') 100) 1000)))
      = [detail_request API_MICRO_DETAIL_URL (JStr ''old'') 31 1]"
  by (simp add: is_token_expired_def demo_api_def demo_sys_def get_stations_def
      get_real_time_data_microinverter_def ensure_token_def and_then_sel token_prefix_def demo_ids
      split: sum.splits)

text \<open>
  Claim C3, amended. Each of the six operations authenticates first exactly when
  the stored token is \<open>None\<close> or otherwise false as a truth value; the expiry is
  not consulted. With a token that counts as true, no login request is issued by
  the operation, expired or not; with one that counts as false, the first request
  issued is the login and no other login follows.
\<close>

theorem guard_tests_token_only:
  "(truthy (token (api s)) \<longrightarrow>
      (\<forall>rq \<in> set (issued s (after_operation rt op s)). req_url rq \<noteq> API_AUTH_URL))
   \<and> (\<not> truthy (token (api s)) \<longrightarrow>
      (\<exists>rest. issued s (after_operation rt op s) = auth_request rt (api s) # rest
           \<and> (\<forall>rq \<in> set rest. req_url rq \<noteq> API_AUTH_URL)))"
proof -
  obtain ds where ds: "sent (after_operation rt op s) = sent (snd (ensure_token rt s)) @ ds"
    and d: "data_only ds"
    using after_operation_sent by blast
  show ?thesis
    using ds d by (simp add: issued_def ensure_token_sent data_only_def)
qed

theorem guard_tests_token_only_witness:
  "truthy (token (api (demo_sys (demo_api (JStr ''old'') 100) 1000)))
   \<and> is_token_expired (demo_api (JStr ''old'') 100) 1000
   \<and> API_AUTH_URL \<notin> req_url ` set (issued (demo_sys (demo_api (JStr ''old'') 100) 1000)
        (after_operation (server_rt (demo_server login_ok micro_ok)) (FetchSiteTelemetry ''1'')
           (demo_sys (demo_api (JStr ''old'') 100) 1000)))
   \<and> \<not> truthy (token (api (demo_sys (init_api ''user'' ''password'') 1000)))
   \<and> (\<exists>rest. issued (demo_sys (init_api ''user'' ''password'') 1000)
        (after_operation (server_rt (demo_server login_ok micro_ok)) (FetchSiteTelemetry ''1'')
           (demo_sys (init_api ''user'' ''password'') 1000))
      = auth_request (server_rt (demo_server login_ok micro_ok)) (init_api ''user'' ''password'') # rest)"
  using
    guard_tests_token_only [of "demo_sys (demo_api (JStr ''old'') 100) 1000"
      "server_rt (demo_server login_ok micro_ok)" "FetchSiteTelemetry ''1''"]
    guard_tests_token_only [of "demo_sys (init_api ''user'' ''password'') 1000"
      "server_rt (demo_server login_ok micro_ok)" "FetchSiteTelemetry ''1''"]
  by (auto simp: demo_sys_def demo_api_def init_api_def is_token_expired_def)

subsection \<open>The two-part fetch of a DTU\<close>

lemma is_objE: "is_obj x \<Longrightarrow> (\<And>kvs. x = JObj kvs \<Longrightarrow> P) \<Longrightarrow> P"
  by (cases x) (simp_all add: is_obj_def)

lemma patch_dtu_no_match:
  "\<forall>x \<in> set xs. is_obj x \<and> \<not> entry_matches rp dtu_id x \<Longrightarrow> patch_dtu rp dtu_id xs d = Inr d"
proof (induction xs)
  case Nil
  show ?case by simp
next
  case (Cons x xs)
  then obtain kvs where "x = JObj kvs" by (auto elim: is_objE)
  with Cons show ?case by (simp add: entry_matches_def)
qed

lemma patch_dtu_obj:
  "\<forall>x \<in> set xs. is_obj x \<Longrightarrow> \<exists>kvs. patch_dtu rp dtu_id xs (JObj d) = Inr (JObj kvs)"
proof (induction xs arbitrary: d)
  case Nil
  show ?case by simp
next
  case (Cons x xs)
  then obtain kvs where "x = JObj kvs" by (auto elim: is_objE)
  with Cons show ?case by auto
qed

lemma patch_dtu_last_match:
  assumes "\<forall>x \<in> set pre. is_obj x"
    and "\<forall>x \<in> set post. is_obj x \<and> \<not> entry_matches rp dtu_id x"
    and "entry_matches rp dtu_id (JObj ent)"
  shows "\<exists>kvs. patch_dtu rp dtu_id (pre @ JObj ent # post) (JObj d) = Inr (JObj kvs)
           \<and> map_of kvs =
               (map_of d)(''warn_data'' \<mapsto> (case map_of ent ''warn_data'' of Some v \<Rightarrow> v | None \<Rightarrow> JNull),
                          ''model_no'' \<mapsto> (case map_of ent ''model_no'' of Some v \<Rightarrow> v | None \<Rightarrow> JNull))"
  using assms(1)
proof (induction pre arbitrary: d)
  case Nil
  show ?case
    using assms(3) patch_dtu_no_match [OF assms(2)]
    by (auto simp: entry_matches_def update_conv' fun_eq_iff)
next
  case (Cons x pre)
  then obtain kvs where x: "x = JObj kvs" by (auto elim: is_objE)
  from Cons have pre: "\<forall>x \<in> set pre. is_obj x" by simp
  show ?case
  proof (cases "entry_matches rp dtu_id x")
    case True
    from Cons.IH [OF pre, of "AList.update ''model_no''
        (case map_of kvs ''model_no'' of Some v \<Rightarrow> v | None \<Rightarrow> JNull)
        (AList.update ''warn_data'' (case map_of kvs ''warn_data'' of Some v \<Rightarrow> v | None \<Rightarrow> JNull) d)"]
    show ?thesis using True x by (auto simp: entry_matches_def update_conv' fun_eq_iff)
  next
    case False
    with Cons.IH [OF pre, of d] x show ?thesis by (simp add: entry_matches_def)
  qed
qed

text \<open>
  Claim C5. Let the token guard pass, the detail request be answered with a
  success whose \<open>data\<close> is the dict \<open>detail\<close>, and the listing request with a
  success whose list holds dict entries, the last one with the text \<open>dtu_id\<close> as
  \<open>id\<close> carrying \<open>warn_data\<close> and \<open>model_no\<close>. Then the fetch returns a dict that is
  \<open>detail\<close> with exactly these two fields set from that entry: every other key is
  as in \<open>detail\<close>, and no further key appears.
\<close>

theorem dtu_merge:
  assumes guard: "ensure_token rt s = (Inr (), s1)"
    and ids: "py_int_of_str dtu_id = Some did" "py_int_of_str station_id = Some sid"
    and detail:
      "rt_post rt (detail_request API_DTU_DETAIL_URL (token (api s1)) did sid) (world s1) = (Json resp1, w1)"
      "is_success resp1 = Inr True" "py_get resp1 ''data'' (JObj []) = Inr (JObj detail)"
    and listing:
      "rt_post rt (page_request API_DTU_URL (token (api s1)) sid) w1 = (Json resp2, w2)"
      "is_success resp2 = Inr True" "data_list resp2 = Inr (pre @ JObj ent # post)"
    and entries: "\<forall>x \<in> set pre. is_obj x"
      "\<forall>x \<in> set post. is_obj x \<and> \<not> entry_matches (rt_repr rt) dtu_id x"
    and ent: "entry_matches (rt_repr rt) dtu_id (JObj ent)"
      "map_of ent ''warn_data'' = Some warn_data" "map_of ent ''model_no'' = Some model_no"
  shows "\<exists>kvs. fst (get_real_time_data_dtu rt station_id dtu_id s) = Inr (JObj kvs)
           \<and> map_of kvs = (map_of detail)(''warn_data'' \<mapsto> warn_data, ''model_no'' \<mapsto> model_no)"
proof -
  let ?rq1 = "detail_request API_DTU_DETAIL_URL (token (api s1)) did sid"
  let ?rq2 = "page_request API_DTU_URL (token (api s1)) sid"
  have r1: "fst (request_json rt ?rq1 s1) = Inr resp1"
    and w1: "world (snd (request_json rt ?rq1 s1)) = w1"
    using detail(1) by (simp_all add: request_json_fst)
  have r2: "fst (request_json rt ?rq2 (snd (request_json rt ?rq1 s1))) = Inr resp2"
    using listing(1) w1 by (simp add: request_json_fst)
  from patch_dtu_last_match [OF entries ent(1), of detail] ent(2,3)
  obtain kvs where k:
    "patch_dtu (rt_repr rt) dtu_id (pre @ JObj ent # post) (JObj detail) = Inr (JObj kvs)"
    "map_of kvs = (map_of detail)(''warn_data'' \<mapsto> warn_data, ''model_no'' \<mapsto> model_no)"
    by auto
  have "fst (get_real_time_data_dtu rt station_id dtu_id s) = Inr (JObj kvs)"
    using guard ids r1 r2 detail(2,3) listing(2,3) k(1)
    by (simp add: get_real_time_data_dtu_def and_then_sel extend_dtu_def)
  with k(2) show ?thesis by blast
qed

theorem dtu_merge_witness:
  "\<exists>kvs. fst (get_real_time_data_dtu (server_rt (demo_server login_ok micro_ok)) ''1'' ''21''
              (demo_sys (demo_api (JStr ''T1'') 8200) 1000)) = Inr (JObj kvs)
     \<and> map_of kvs = (map_of [(''a'', JInt 1), (''b'', JInt 2)])
           (''warn_data'' \<mapsto> JObj [(''connect'', JBool True)], ''model_no'' \<mapsto> JStr ''DTU-A'')"
proof -
  let ?rt = "server_rt (demo_server login_ok micro_ok)"
  let ?s = "demo_sys (demo_api (JStr ''T1'') 8200) 1000"
  let ?ent = "[(''id'', JInt 21), (''warn_data'', JObj [(''connect'', JBool True)]),
               (''model_no'', JStr ''DTU-A'')]"
  let ?other = "JObj [(''id'', JInt 22), (''warn_data'', JObj [(''connect'', JBool False)]),
               (''model_no'', JStr ''DTU-B'')]"
  have guard: "ensure_token ?rt ?s = (Inr (), ?s)"
    by (simp add: ensure_token_def demo_sys_def demo_api_def)
  have detail: "rt_post ?rt (detail_request API_DTU_DETAIL_URL (token (api ?s)) 21 1) (world ?s)
      = (Json (envelope (JObj [(''a'', JInt 1), (''b'', JInt 2)])), 1000)"
    by (simp add: server_rt_def demo_server_def detail_request_def demo_sys_def)
  have listing: "rt_post ?rt (page_request API_DTU_URL (token (api ?s)) 1) 1000
      = (Json (envelope demo_listing), 1000)"
    by (simp add: server_rt_def demo_server_def page_request_def)
  have ok: "is_success (envelope d) = Inr True" "py_get (envelope d) ''data'' (JObj []) = Inr d" for d
    by (simp_all add: is_success_def envelope_def)
  have lst: "data_list (envelope demo_listing) = Inr ([] @ JObj ?ent # [?other])"
    by (simp add: data_list_def envelope_def demo_listing_def)
  have m: "entry_matches (rt_repr ?rt) ''21'' (JObj ?ent)"
    "\<forall>x \<in> set [?other]. is_obj x \<and> \<not> entry_matches (rt_repr ?rt) ''21'' x"
    by (simp_all add: entry_matches_def demo_texts is_obj_def)
  show ?thesis
    using dtu_merge [OF guard demo_ids(3) demo_ids(1) detail ok(1) ok(2) listing ok(1) lst _ m(2) m(1),
        of "JObj [(''connect'', JBool True)]" "JStr ''DTU-A''"]
    by simp
qed

section \<open>Properties of the refresh cycle\<close>

subsection \<open>The loops, entity by entity\<close>

lemma for_each_append:
  "for_each f (xs @ ys) acc s = and_then (for_each f xs acc s) (for_each f ys)"
  by (induction xs arbitrary: acc s) (auto simp: and_then_def split: prod.splits sum.splits)

lemma for_each_map: "for_each f (map g xs) = for_each (\<lambda>x. f (g x)) xs"
proof -
  have "for_each f (map g xs) acc s = for_each (\<lambda>x. f (g x)) xs acc s" for acc s
    by (induction xs arbitrary: acc s) (auto split: prod.splits sum.splits)
  then show ?thesis by (simp add: fun_eq_iff)
qed

lemma for_each_concat:
  "for_each (\<lambda>x. for_each f (g x)) xs acc s = for_each f (concat (map g xs)) acc s"
  by (induction xs arbitrary: acc s)
    (auto simp: for_each_append and_then_def split: prod.splits sum.splits)

lemma update_devices_eq:
  "update_devices f station_id table data s = for_each f (devices_of station_id table) data s"
proof -
  have "for_each (\<lambda>kd acc st. if station_id = fst kd then for_each f (snd kd) acc st else (Inr acc, st))
          table data s
        = for_each f (concat (map snd (filter (\<lambda>kd. station_id = fst kd) table))) data s"
    by (induction table arbitrary: data s)
      (auto simp: for_each_append and_then_def split: prod.splits sum.splits)
  then show ?thesis by (simp add: update_devices_def devices_of_def)
qed

lemma run_job_simps:
  "run_job rt (DtuJob station_id d) = update_dtu rt station_id d"
  "run_job rt (MicroJob station_id d) = update_micro rt station_id d"
  by (simp_all add: run_job_def update_dtu_def update_micro_def fun_eq_iff)

lemma update_station_eq:
  "update_station rt dtus microinverters station_id data s
   = for_each (run_job rt) (station_jobs dtus microinverters station_id) data s"
proof -
  have station: "run_job rt (StationJob station_id) data s
      = and_then (get_real_time_data_station rt station_id s) (\<lambda>p s1.
          (Inr (AList.update station_id (entry p) data), s1))"
    by (simp add: run_job_def)
  have rest: "for_each (run_job rt)
        (map (DtuJob station_id) (devices_of station_id dtus)
          @ map (MicroJob station_id) (devices_of station_id microinverters)) acc st
      = and_then (for_each (update_dtu rt station_id) (devices_of station_id dtus) acc st)
          (for_each (update_micro rt station_id) (devices_of station_id microinverters))" for acc st
    by (simp add: for_each_append for_each_map run_job_simps)
  show ?thesis
    by (simp add: update_station_def station_jobs_def update_devices_eq station rest and_then_def
        split: prod.splits sum.splits)
qed

lemma cycle_eq:
  "for_each (update_station rt dtus microinverters) (map fst stations) data s
   = for_each (run_job rt) (cycle_jobs stations dtus microinverters) data s"
proof -
  have "update_station rt dtus microinverters = (\<lambda>x. for_each (run_job rt) (station_jobs dtus microinverters x))"
    by (simp add: fun_eq_iff update_station_eq)
  then show ?thesis by (simp add: cycle_jobs_def for_each_concat)
qed

lemma async_update_data_jobs:
  "async_update_data rt stations dtus microinverters s =
     (case and_then (refresh_token rt s) (\<lambda>u s1.
             for_each (run_job rt) (cycle_jobs stations dtus microinverters) [] s1) of
        (Inl e, s2) \<Rightarrow> (Inl (UpdateFailed e), s2)
      | (Inr data, s2) \<Rightarrow> (Inr data, s2))"
  by (simp add: async_update_data_def cycle_eq)

lemma for_each_abort:
  assumes "for_each f pre acc s = (Inr acc1, s1)" and "f x acc1 s1 = (Inl e, s2)"
  shows "for_each f (pre @ x # post) acc s = (Inl e, s2)"
  using assms by (simp add: for_each_append and_then_def)

lemmas run_defs = async_update_data_def refresh_token_def is_token_expired_def and_then_def
  update_station_def update_devices_def update_dtu_def update_micro_def
  get_real_time_data_station_def get_real_time_data_microinverter_def get_real_time_data_dtu_def
  ensure_token_def authenticate_def request_json_def http_post_def payload_of_response_def extend_dtu_def
  data_list_def is_success_def entry_def station_request_def detail_request_def page_request_def auth_request_def
  server_rt_def demo_server_def micro_ok_def micro_31_down_def login_ok_def envelope_def rejection_def
  demo_listing_def demo_api_def demo_sys_def demo_stations_def demo_dtus_def demo_micros_def dev_def
  coordinator_refresh_def

subsection \<open>Reauthentication at the start of a cycle\<close>

lemma reauthentication_error_aborts:
  assumes "is_token_expired (api s) (rt_time rt (world s))" and "authenticate rt s = (Inl e, s1)"
  shows "async_update_data rt stations dtus microinverters s = (Inl (UpdateFailed e), s1)"
    and "coordinator_refresh rt stations dtus microinverters (c, s) = (c\<lparr>last_update_success := False\<rparr>, s1)"
  using assms by (simp_all add: coordinator_refresh_def async_update_data_def refresh_token_def and_then_def)

lemma reauthentication_false_ignored:
  assumes "is_token_expired (api s) (rt_time rt (world s))" and "authenticate rt s = (Inr False, s1)"
  shows "async_update_data rt stations dtus microinverters s =
     (case for_each (update_station rt dtus microinverters) (map fst stations) [] s1 of
        (Inl e, s2) \<Rightarrow> (Inl (UpdateFailed e), s2)
      | (Inr data, s2) \<Rightarrow> (Inr data, s2))"
  using assms by (simp add: async_update_data_def refresh_token_def and_then_def)

text \<open>
  Claim C1 holds when reauthentication raises (\<open>reauthentication_error_aborts\<close>),
  but the code does not keep it when \<open>authenticate\<close> returns \<open>False\<close>: the cycle
  calls it without looking at the result and goes on. Here the stored token has
  expired (expiry 100, clock 1000) and the service turns down the login and the
  station request alike. The cycle is reported as a success and the published
  snapshot (\<open>real_power\<close> 7) is replaced by one with an empty payload.
\<close>

theorem rejected_reauthentication_still_publishes:
  "coordinator_refresh (server_rt reject_all) [(''1'', JStr ''Home'')] [] []
     (\<lparr>published = Some [(''1'', entry (JObj [(''real_power'', JStr ''7'')]))], last_update_success = True\<rparr>,
      demo_sys (demo_api (JStr ''old'') 100) 1000)
   = (\<lparr>published = Some [(''1'', entry (JObj []))], last_update_success = True\<rparr>,
      \<lparr>api = demo_api (JStr ''old'') 100, world = 1000,
       sent = [auth_request (server_rt reject_all) (demo_api (JStr ''old'') 100),
               station_request (JStr ''old'') 1]\<rparr>)"
  by (simp add: run_defs reject_all_def demo_ids)

subsection \<open>A fetch that raises\<close>

text \<open>
  Claim C2, as stated, fails: with two stations, a DTU and two microinverters
  each, the fetch of microinverter 31 meets a transport failure. The cycle ends
  there as \<open>UpdateFailed\<close>: no snapshot is returned, and nothing is requested for
  microinverter 32 or for the second station.
\<close>

theorem one_failing_fetch_counterexample:
  "fst (async_update_data (server_rt (demo_server login_ok micro_31_down)) demo_stations demo_dtus demo_micros
      (demo_sys (demo_api (JStr ''T1'') 8200) 1000)) = Inl (UpdateFailed TransportFailure)
   \<and> sent (snd (async_update_data (server_rt (demo_server login_ok micro_31_down)) demo_stations demo_dtus demo_micros
      (demo_sys (demo_api (JStr ''T1'') 8200) 1000)))
     = [station_request (JStr ''T1'') 1, detail_request API_DTU_DETAIL_URL (JStr ''T1'') 21 1,
        page_request API_DTU_URL (JStr ''T1'') 1, detail_request API_MICRO_DETAIL_URL (JStr ''T1'') 31 1]"
  by (simp add: run_defs demo_ids demo_texts)

text \<open>
  Claim C2, amended. A failure raised by the telemetry fetch of any single entity
  is not caught per entity. If the entities before it were fetched and its own
  fetch raises \<open>e\<close>, the cycle ends in the state that fetch left behind: the
  entities after it are not fetched, no snapshot is returned, the cycle is
  reported as \<open>UpdateFailed e\<close>, and the coordinator keeps what it had published.
\<close>

theorem entity_failure_aborts_cycle:
  assumes "cycle_jobs stations dtus microinverters = pre @ j # post"
    and "refresh_token rt s = (Inr (), s0)"
    and "for_each (run_job rt) pre [] s0 = (Inr data1, s1)"
    and "job_fetch rt j s1 = (Inl e, s2)"
  shows "async_update_data rt stations dtus microinverters s = (Inl (UpdateFailed e), s2)
       \<and> coordinator_refresh rt stations dtus microinverters (c, s) = (c\<lparr>last_update_success := False\<rparr>, s2)"
proof -
  have "run_job rt j data1 s1 = (Inl e, s2)"
    using assms(4) by (simp add: run_job_def and_then_def)
  from for_each_abort [OF assms(3) this, of post]
  have "async_update_data rt stations dtus microinverters s = (Inl (UpdateFailed e), s2)"
    using assms(1,2) by (simp add: async_update_data_jobs and_then_def)
  then show ?thesis by (simp add: coordinator_refresh_def)
qed

theorem entity_failure_aborts_cycle_witness:
  "async_update_data (server_rt (demo_server login_ok micro_31_down)) demo_stations demo_dtus demo_micros
      (demo_sys (demo_api (JStr ''T1'') 8200) 1000)
   = (Inl (UpdateFailed TransportFailure),
      \<lparr>api = demo_api (JStr ''T1'') 8200, world = 1000,
       sent = [station_request (JStr ''T1'') 1, detail_request API_DTU_DETAIL_URL (JStr ''T1'') 21 1,
               page_request API_DTU_URL (JStr ''T1'') 1,
               detail_request API_MICRO_DETAIL_URL (JStr ''T1'') 31 1]\<rparr>)
   \<and> fst (coordinator_refresh (server_rt (demo_server login_ok micro_31_down)) demo_stations demo_dtus demo_micros
        (\<lparr>published = Some [(''1'', entry (JObj []))], last_update_success = True\<rparr>,
         demo_sys (demo_api (JStr ''T1'') 8200) 1000))
     = \<lparr>published = Some [(''1'', entry (JObj []))], last_update_success = False\<rparr>"
proof -
  let ?rt = "server_rt (demo_server login_ok micro_31_down)"
  let ?s = "demo_sys (demo_api (JStr ''T1'') 8200) 1000"
  let ?s1 = "\<lparr>api = demo_api (JStr ''T1'') 8200, world = 1000 :: rat,
       sent = [station_request (JStr ''T1'') 1, detail_request API_DTU_DETAIL_URL (JStr ''T1'') 21 1,
               page_request API_DTU_URL (JStr ''T1'') 1]\<rparr>"
  let ?s2 = "\<lparr>api = demo_api (JStr ''T1'') 8200, world = 1000 :: rat,
       sent = [station_request (JStr ''T1'') 1, detail_request API_DTU_DETAIL_URL (JStr ''T1'') 21 1,
               page_request API_DTU_URL (JStr ''T1'') 1,
               detail_request API_MICRO_DETAIL_URL (JStr ''T1'') 31 1]\<rparr>"
  have jobs: "cycle_jobs demo_stations demo_dtus demo_micros
      = [StationJob ''1'', DtuJob ''1'' (dev ''21'')] @ MicroJob ''1'' (dev ''31'')
          # [MicroJob ''1'' (dev ''32''), StationJob ''2'', DtuJob ''2'' (dev ''22''),
             MicroJob ''2'' (dev ''33''), MicroJob ''2'' (dev ''34'')]"
    by (simp add: cycle_jobs_def station_jobs_def devices_of_def demo_stations_def demo_dtus_def demo_micros_def)
  have start: "refresh_token ?rt ?s = (Inr (), ?s)"
    by (simp add: refresh_token_def is_token_expired_def demo_sys_def demo_api_def server_rt_def)
  have before: "for_each (run_job ?rt) [StationJob ''1'', DtuJob ''1'' (dev ''21'')] [] ?s
      = (Inr [(''1'', entry (JObj [(''real_power'', JStr ''412.5'')])),
              (''21'', entry (JObj [(''a'', JInt 1), (''b'', JInt 2),
                 (''warn_data'', JObj [(''connect'', JBool True)]), (''model_no'', JStr ''DTU-A'')]))], ?s1)"
    by (simp add: run_job_def run_defs demo_ids demo_texts)
  have failing: "job_fetch ?rt (MicroJob ''1'' (dev ''31'')) ?s1 = (Inl TransportFailure, ?s2)"
    by (simp add: run_defs demo_ids)
  show ?thesis
    using entity_failure_aborts_cycle [OF jobs start before failing,
        of "\<lparr>published = Some [(''1'', entry (JObj []))], last_update_success = True\<rparr>"]
    by simp
qed

subsection \<open>A complete cycle\<close>

lemma ensure_token_truthy: "truthy (token (api s)) \<Longrightarrow> ensure_token rt s = (Inr (), s)"
  by (simp add: ensure_token_def)

lemma refresh_token_valid:
  "\<not> is_token_expired (api s) (rt_time rt (world s)) \<Longrightarrow> refresh_token rt s = (Inr (), s)"
  by (simp add: refresh_token_def)

lemma success_with_reply:
  assumes "success_with resp d"
  shows "is_success resp = Inr True" and "py_get resp ''data'' (JObj []) = Inr d"
  using assms by (cases resp; simp add: success_with_def is_success_def)+

lemma success_with_list:
  assumes "success_with resp (JObj l)" and "map_of l ''list'' = Some (JList xs)"
  shows "data_list resp = Inr xs"
  using success_with_reply(2) [OF assms(1)] assms(2) by (simp add: data_list_def)

lemma request_json_delivered:
  "\<forall>rq w. fst (rt_post rt rq w) = Json (srv rq) \<Longrightarrow> fst (request_json rt rq s) = Inr (srv rq)"
  by (simp add: request_json_fst)

lemma station_fetch:
  assumes "\<forall>rq w. fst (rt_post rt rq w) = Json (srv rq)" and "truthy (token (api st))"
    and "py_int_of_str station_id = Some sid"
    and "success_with (srv (station_request (token (api st)) sid)) p"
  shows "fst (get_real_time_data_station rt station_id st) = Inr p"
    and "api (snd (get_real_time_data_station rt station_id st)) = api st"
    and "sent (snd (get_real_time_data_station rt station_id st))
         = sent st @ [station_request (token (api st)) sid]"
  using assms(3) success_with_reply [OF assms(4)]
  by (simp_all add: get_real_time_data_station_def ensure_token_truthy [OF assms(2)] and_then_sel
      request_json_delivered [OF assms(1)] payload_of_response_def)

lemma micro_fetch:
  assumes "\<forall>rq w. fst (rt_post rt rq w) = Json (srv rq)" and "truthy (token (api st))"
    and "py_int_of_str station_id = Some sid" and "py_int_of_str micro_id = Some mid"
    and "success_with (srv (detail_request API_MICRO_DETAIL_URL (token (api st)) mid sid)) p"
  shows "fst (get_real_time_data_microinverter rt station_id micro_id st) = Inr p"
    and "api (snd (get_real_time_data_microinverter rt station_id micro_id st)) = api st"
    and "sent (snd (get_real_time_data_microinverter rt station_id micro_id st))
         = sent st @ [detail_request API_MICRO_DETAIL_URL (token (api st)) mid sid]"
  using assms(3,4) success_with_reply [OF assms(5)]
  by (simp_all add: get_real_time_data_microinverter_def ensure_token_truthy [OF assms(2)] and_then_sel
      request_json_delivered [OF assms(1)] payload_of_response_def)

lemma dtu_fetch:
  assumes "\<forall>rq w. fst (rt_post rt rq w) = Json (srv rq)" and "truthy (token (api st))"
    and "py_int_of_str station_id = Some sid" and "py_int_of_str dtu_id = Some did"
    and "success_with (srv (detail_request API_DTU_DETAIL_URL (token (api st)) did sid)) (JObj detail)"
    and "success_with (srv (page_request API_DTU_URL (token (api st)) sid)) (JObj l)"
    and "map_of l ''list'' = Some (JList (pre @ JObj ent # post))"
    and "\<forall>x \<in> set pre. is_obj x"
    and "\<forall>x \<in> set post. is_obj x \<and> \<not> entry_matches (rt_repr rt) dtu_id x"
    and "entry_matches (rt_repr rt) dtu_id (JObj ent)"
    and "map_of ent ''warn_data'' = Some w" and "map_of ent ''model_no'' = Some m"
  shows "\<exists>kvs. fst (get_real_time_data_dtu rt station_id dtu_id st) = Inr (JObj kvs)
           \<and> map_of kvs = (map_of detail)(''warn_data'' \<mapsto> w, ''model_no'' \<mapsto> m)"
    and "api (snd (get_real_time_data_dtu rt station_id dtu_id st)) = api st"
    and "sent (snd (get_real_time_data_dtu rt station_id dtu_id st))
         = sent st @ [detail_request API_DTU_DETAIL_URL (token (api st)) did sid,
                      page_request API_DTU_URL (token (api st)) sid]"
proof -
  note et = ensure_token_truthy [OF assms(2)]
  note rj = request_json_delivered [OF assms(1)]
  note r1 = success_with_reply [OF assms(5)]
  note r2 = success_with_reply(1) [OF assms(6)] success_with_list [OF assms(6,7)]
  from patch_dtu_last_match [OF assms(8,9,10), of detail] assms(11,12)
  obtain kvs where k:
    "patch_dtu (rt_repr rt) dtu_id (pre @ JObj ent # post) (JObj detail) = Inr (JObj kvs)"
    "map_of kvs = (map_of detail)(''warn_data'' \<mapsto> w, ''model_no'' \<mapsto> m)"
    by auto
  have "fst (get_real_time_data_dtu rt station_id dtu_id st) = Inr (JObj kvs)"
    using assms(3,4) r1 r2 k(1)
    by (simp add: get_real_time_data_dtu_def et and_then_sel rj extend_dtu_def)
  with k(2) show "\<exists>kvs. fst (get_real_time_data_dtu rt station_id dtu_id st) = Inr (JObj kvs)
           \<and> map_of kvs = (map_of detail)(''warn_data'' \<mapsto> w, ''model_no'' \<mapsto> m)"
    by blast
  show "api (snd (get_real_time_data_dtu rt station_id dtu_id st)) = api st"
    using assms(3,4) r1 by (simp add: get_real_time_data_dtu_def et and_then_sel rj)
  show "sent (snd (get_real_time_data_dtu rt station_id dtu_id st))
         = sent st @ [detail_request API_DTU_DETAIL_URL (token (api st)) did sid,
                      page_request API_DTU_URL (token (api st)) sid]"
    using assms(3,4) r1 by (simp add: get_real_time_data_dtu_def et and_then_sel rj)
qed

lemma run_job_fetched:
  "fst (job_fetch rt j st) = Inr p \<Longrightarrow>
   run_job rt j data st = (Inr (AList.update (job_key j) (entry p) data), snd (job_fetch rt j st))"
  by (simp add: run_job_def and_then_sel)

text \<open>
  Claim C6. An account has two sites \<open>a\<close> and \<open>b\<close>, each with one DTU and two
  microinverters; the eight identifiers are distinct and are numbers; the token is
  in place and not expired. The service answers every request of the cycle with a
  success: the site requests with the payloads \<open>pa\<close> and \<open>pb\<close>, the microinverter
  requests with \<open>q1\<close> to \<open>q4\<close>, the DTU detail requests with the dicts \<open>detail1\<close>
  and \<open>detail2\<close>, and the DTU listing of each site with a list of dicts whose last
  entry for the site's DTU carries \<open>warn_data\<close> and \<open>model_no\<close>. Then one cycle
  makes eight fetches (per site one for the station, one for the DTU, two for the
  microinverters), issues per site one station request, the two requests of the
  DTU fetch and two microinverter requests, in that order and nothing else, and
  returns a snapshot with exactly the eight identifiers as keys: each site and
  each microinverter has \<open>{"real_time_data": payload}\<close> with the payload the
  service sent for it, and each DTU has under \<open>real_time_data\<close> its detail dict
  with \<open>warn_data\<close> and \<open>model_no\<close> set from its listing entry.
\<close>

theorem two_site_cycle:
  assumes transport: "\<forall>rq w. fst (rt_post rt rq w) = Json (srv rq)"
    and session: "truthy (token (api s))" "\<not> is_token_expired (api s) (rt_time rt (world s))"
      "tok = token (api s)"
    and topology: "map fst stations = [a, b]"
      "devices_of a dtus = [d1]" "devices_of b dtus = [d2]"
      "devices_of a microinverters = [m1, m2]" "devices_of b microinverters = [m3, m4]"
    and ids: "distinct [a, dev_id d1, dev_id m1, dev_id m2, b, dev_id d2, dev_id m3, dev_id m4]"
    and ints: "py_int_of_str a = Some na" "py_int_of_str b = Some nb"
      "py_int_of_str (dev_id d1) = Some i1" "py_int_of_str (dev_id d2) = Some i2"
      "py_int_of_str (dev_id m1) = Some k1" "py_int_of_str (dev_id m2) = Some k2"
      "py_int_of_str (dev_id m3) = Some k3" "py_int_of_str (dev_id m4) = Some k4"
    and sites: "success_with (srv (station_request tok na)) pa"
      "success_with (srv (station_request tok nb)) pb"
    and micros: "success_with (srv (detail_request API_MICRO_DETAIL_URL tok k1 na)) q1"
      "success_with (srv (detail_request API_MICRO_DETAIL_URL tok k2 na)) q2"
      "success_with (srv (detail_request API_MICRO_DETAIL_URL tok k3 nb)) q3"
      "success_with (srv (detail_request API_MICRO_DETAIL_URL tok k4 nb)) q4"
    and dtu_a: "success_with (srv (detail_request API_DTU_DETAIL_URL tok i1 na)) (JObj detail1)"
      "success_with (srv (page_request API_DTU_URL tok na)) (JObj l1)"
      "map_of l1 ''list'' = Some (JList (pre1 @ JObj ent1 # post1))"
      "\<forall>x \<in> set pre1. is_obj x"
      "\<forall>x \<in> set post1. is_obj x \<and> \<not> entry_matches (rt_repr rt) (dev_id d1) x"
      "entry_matches (rt_repr rt) (dev_id d1) (JObj ent1)"
      "map_of ent1 ''warn_data'' = Some w1" "map_of ent1 ''model_no'' = Some mo1"
    and dtu_b: "success_with (srv (detail_request API_DTU_DETAIL_URL tok i2 nb)) (JObj detail2)"
      "success_with (srv (page_request API_DTU_URL tok nb)) (JObj l2)"
      "map_of l2 ''list'' = Some (JList (pre2 @ JObj ent2 # post2))"
      "\<forall>x \<in> set pre2. is_obj x"
      "\<forall>x \<in> set post2. is_obj x \<and> \<not> entry_matches (rt_repr rt) (dev_id d2) x"
      "entry_matches (rt_repr rt) (dev_id d2) (JObj ent2)"
      "map_of ent2 ''warn_data'' = Some w2" "map_of ent2 ''model_no'' = Some mo2"
  shows "\<exists>s' c1 c2. async_update_data rt stations dtus microinverters s =
          (Inr [(a, JObj [(''real_time_data'', pa)]),
                (dev_id d1, JObj [(''real_time_data'', JObj c1)]),
                (dev_id m1, JObj [(''real_time_data'', q1)]),
                (dev_id m2, JObj [(''real_time_data'', q2)]),
                (b, JObj [(''real_time_data'', pb)]),
                (dev_id d2, JObj [(''real_time_data'', JObj c2)]),
                (dev_id m3, JObj [(''real_time_data'', q3)]),
                (dev_id m4, JObj [(''real_time_data'', q4)])],
           s')
        \<and> map_of c1 = (map_of detail1)(''warn_data'' \<mapsto> w1, ''model_no'' \<mapsto> mo1)
        \<and> map_of c2 = (map_of detail2)(''warn_data'' \<mapsto> w2, ''model_no'' \<mapsto> mo2)
        \<and> issued s s' =
            [station_request tok na,
             detail_request API_DTU_DETAIL_URL tok i1 na, page_request API_DTU_URL tok na,
             detail_request API_MICRO_DETAIL_URL tok k1 na,
             detail_request API_MICRO_DETAIL_URL tok k2 na,
             station_request tok nb,
             detail_request API_DTU_DETAIL_URL tok i2 nb, page_request API_DTU_URL tok nb,
             detail_request API_MICRO_DETAIL_URL tok k3 nb,
             detail_request API_MICRO_DETAIL_URL tok k4 nb]
        \<and> cycle_jobs stations dtus microinverters =
            [StationJob a, DtuJob a d1, MicroJob a m1, MicroJob a m2,
             StationJob b, DtuJob b d2, MicroJob b m3, MicroJob b m4]"
proof -
  let ?js = "cycle_jobs stations dtus microinverters"
  have jobs: "?js = [StationJob a, DtuJob a d1, MicroJob a m1, MicroJob a m2,
             StationJob b, DtuJob b d2, MicroJob b m3, MicroJob b m4]"
    by (simp add: cycle_jobs_def station_jobs_def topology)
  have neq: "a \<noteq> dev_id d1" "a \<noteq> dev_id m1" "a \<noteq> dev_id m2" "a \<noteq> b" "a \<noteq> dev_id d2"
    "a \<noteq> dev_id m3" "a \<noteq> dev_id m4"
    "dev_id d1 \<noteq> dev_id m1" "dev_id d1 \<noteq> dev_id m2" "dev_id d1 \<noteq> b" "dev_id d1 \<noteq> dev_id d2"
    "dev_id d1 \<noteq> dev_id m3" "dev_id d1 \<noteq> dev_id m4"
    "dev_id m1 \<noteq> dev_id m2" "dev_id m1 \<noteq> b" "dev_id m1 \<noteq> dev_id d2"
    "dev_id m1 \<noteq> dev_id m3" "dev_id m1 \<noteq> dev_id m4"
    "dev_id m2 \<noteq> b" "dev_id m2 \<noteq> dev_id d2" "dev_id m2 \<noteq> dev_id m3" "dev_id m2 \<noteq> dev_id m4"
    "b \<noteq> dev_id d2" "b \<noteq> dev_id m3" "b \<noteq> dev_id m4"
    "dev_id d2 \<noteq> dev_id m3" "dev_id d2 \<noteq> dev_id m4" "dev_id m3 \<noteq> dev_id m4"
    using ids by simp_all
  define s1 where "s1 = snd (job_fetch rt (StationJob a) s)"
  define s2 where "s2 = snd (job_fetch rt (DtuJob a d1) s1)"
  define s3 where "s3 = snd (job_fetch rt (MicroJob a m1) s2)"
  define s4 where "s4 = snd (job_fetch rt (MicroJob a m2) s3)"
  define s5 where "s5 = snd (job_fetch rt (StationJob b) s4)"
  define s6 where "s6 = snd (job_fetch rt (DtuJob b d2) s5)"
  define s7 where "s7 = snd (job_fetch rt (MicroJob b m3) s6)"
  define s8 where "s8 = snd (job_fetch rt (MicroJob b m4) s7)"
  have t0: "token (api s) = tok" "truthy tok" using session(1,3) by simp_all

  have f1: "fst (job_fetch rt (StationJob a) s) = Inr pa"
    and a1: "api s1 = api s"
    and n1: "sent s1 = sent s @ [station_request tok na]"
    using station_fetch [OF transport session(1) ints(1), of pa] sites(1)
    by (simp_all add: s1_def t0(1))
  have t1: "token (api s1) = tok" "truthy (token (api s1))" using a1 t0 by simp_all

  have d1: "success_with (srv (detail_request API_DTU_DETAIL_URL (token (api s1)) i1 na)) (JObj detail1)"
    "success_with (srv (page_request API_DTU_URL (token (api s1)) na)) (JObj l1)"
    using dtu_a(1,2) by (simp_all add: t1(1))
  note r = dtu_fetch [OF transport t1(2) ints(1) ints(3) d1 dtu_a(3-8)]
  from r(1) obtain c1 where f2: "fst (job_fetch rt (DtuJob a d1) s1) = Inr (JObj c1)"
    and c1: "map_of c1 = (map_of detail1)(''warn_data'' \<mapsto> w1, ''model_no'' \<mapsto> mo1)"
    by auto
  have a2: "api s2 = api s1"
    and n2: "sent s2 = sent s1 @ [detail_request API_DTU_DETAIL_URL tok i1 na, page_request API_DTU_URL tok na]"
    using r(2,3) by (simp_all add: s2_def t1(1))
  have t2: "token (api s2) = tok" "truthy (token (api s2))" using a2 t1 by simp_all

  have f3: "fst (job_fetch rt (MicroJob a m1) s2) = Inr q1"
    and a3: "api s3 = api s2"
    and n3: "sent s3 = sent s2 @ [detail_request API_MICRO_DETAIL_URL tok k1 na]"
    using micro_fetch [OF transport t2(2) ints(1) ints(5), of q1] micros(1)
    by (simp_all add: s3_def t2(1))
  have t3: "token (api s3) = tok" "truthy (token (api s3))" using a3 t2 by simp_all

  have f4: "fst (job_fetch rt (MicroJob a m2) s3) = Inr q2"
    and a4: "api s4 = api s3"
    and n4: "sent s4 = sent s3 @ [detail_request API_MICRO_DETAIL_URL tok k2 na]"
    using micro_fetch [OF transport t3(2) ints(1) ints(6), of q2] micros(2)
    by (simp_all add: s4_def t3(1))
  have t4: "token (api s4) = tok" "truthy (token (api s4))" using a4 t3 by simp_all

  have f5: "fst (job_fetch rt (StationJob b) s4) = Inr pb"
    and a5: "api s5 = api s4"
    and n5: "sent s5 = sent s4 @ [station_request tok nb]"
    using station_fetch [OF transport t4(2) ints(2), of pb] sites(2)
    by (simp_all add: s5_def t4(1))
  have t5: "token (api s5) = tok" "truthy (token (api s5))" using a5 t4 by simp_all

  have d2: "success_with (srv (detail_request API_DTU_DETAIL_URL (token (api s5)) i2 nb)) (JObj detail2)"
    "success_with (srv (page_request API_DTU_URL (token (api s5)) nb)) (JObj l2)"
    using dtu_b(1,2) by (simp_all add: t5(1))
  note r' = dtu_fetch [OF transport t5(2) ints(2) ints(4) d2 dtu_b(3-8)]
  from r'(1) obtain c2 where f6: "fst (job_fetch rt (DtuJob b d2) s5) = Inr (JObj c2)"
    and c2: "map_of c2 = (map_of detail2)(''warn_data'' \<mapsto> w2, ''model_no'' \<mapsto> mo2)"
    by auto
  have a6: "api s6 = api s5"
    and n6: "sent s6 = sent s5 @ [detail_request API_DTU_DETAIL_URL tok i2 nb, page_request API_DTU_URL tok nb]"
    using r'(2,3) by (simp_all add: s6_def t5(1))
  have t6: "token (api s6) = tok" "truthy (token (api s6))" using a6 t5 by simp_all

  have f7: "fst (job_fetch rt (MicroJob b m3) s6) = Inr q3"
    and a7: "api s7 = api s6"
    and n7: "sent s7 = sent s6 @ [detail_request API_MICRO_DETAIL_URL tok k3 nb]"
    using micro_fetch [OF transport t6(2) ints(2) ints(7), of q3] micros(3)
    by (simp_all add: s7_def t6(1))
  have t7: "token (api s7) = tok" "truthy (token (api s7))" using a7 t6 by simp_all

  have f8: "fst (job_fetch rt (MicroJob b m4) s7) = Inr q4"
    and n8: "sent s8 = sent s7 @ [detail_request API_MICRO_DETAIL_URL tok k4 nb]"
    using micro_fetch [OF transport t7(2) ints(2) ints(8), of q4] micros(4)
    by (simp_all add: s8_def t7(1))

  let ?e1 = "(a, JObj [(''real_time_data'', pa)])"
  let ?e2 = "(dev_id d1, JObj [(''real_time_data'', JObj c1)])"
  let ?e3 = "(dev_id m1, JObj [(''real_time_data'', q1)])"
  let ?e4 = "(dev_id m2, JObj [(''real_time_data'', q2)])"
  let ?e5 = "(b, JObj [(''real_time_data'', pb)])"
  let ?e6 = "(dev_id d2, JObj [(''real_time_data'', JObj c2)])"
  let ?e7 = "(dev_id m3, JObj [(''real_time_data'', q3)])"
  let ?e8 = "(dev_id m4, JObj [(''real_time_data'', q4)])"
  have r1: "run_job rt (StationJob a) [] s = (Inr [?e1], s1)"
    using run_job_fetched [OF f1, of "[]"] by (simp add: s1_def entry_def)
  have r2: "run_job rt (DtuJob a d1) [?e1] s1 = (Inr [?e1, ?e2], s2)"
    using run_job_fetched [OF f2, of "[?e1]"] neq by (simp add: s2_def entry_def)
  have r3: "run_job rt (MicroJob a m1) [?e1, ?e2] s2 = (Inr [?e1, ?e2, ?e3], s3)"
    using run_job_fetched [OF f3, of "[?e1, ?e2]"] neq by (simp add: s3_def entry_def)
  have r4: "run_job rt (MicroJob a m2) [?e1, ?e2, ?e3] s3 = (Inr [?e1, ?e2, ?e3, ?e4], s4)"
    using run_job_fetched [OF f4, of "[?e1, ?e2, ?e3]"] neq by (simp add: s4_def entry_def)
  have r5: "run_job rt (StationJob b) [?e1, ?e2, ?e3, ?e4] s4 = (Inr [?e1, ?e2, ?e3, ?e4, ?e5], s5)"
    using run_job_fetched [OF f5, of "[?e1, ?e2, ?e3, ?e4]"] neq neq [symmetric]
    by (simp add: s5_def entry_def)
  have r6: "run_job rt (DtuJob b d2) [?e1, ?e2, ?e3, ?e4, ?e5] s5
      = (Inr [?e1, ?e2, ?e3, ?e4, ?e5, ?e6], s6)"
    using run_job_fetched [OF f6, of "[?e1, ?e2, ?e3, ?e4, ?e5]"] neq neq [symmetric]
    by (simp add: s6_def entry_def)
  have r7: "run_job rt (MicroJob b m3) [?e1, ?e2, ?e3, ?e4, ?e5, ?e6] s6
      = (Inr [?e1, ?e2, ?e3, ?e4, ?e5, ?e6, ?e7], s7)"
    using run_job_fetched [OF f7, of "[?e1, ?e2, ?e3, ?e4, ?e5, ?e6]"] neq neq [symmetric]
    by (simp add: s7_def entry_def)
  have r8: "run_job rt (MicroJob b m4) [?e1, ?e2, ?e3, ?e4, ?e5, ?e6, ?e7] s7
      = (Inr [?e1, ?e2, ?e3, ?e4, ?e5, ?e6, ?e7, ?e8], s8)"
    using run_job_fetched [OF f8, of "[?e1, ?e2, ?e3, ?e4, ?e5, ?e6, ?e7]"] neq neq [symmetric]
    by (simp add: s8_def entry_def)
  have run: "for_each (run_job rt) ?js [] s = (Inr [?e1, ?e2, ?e3, ?e4, ?e5, ?e6, ?e7, ?e8], s8)"
    unfolding jobs by (simp add: r1 r2 r3 r4 r5 r6 r7 r8)
  have upd: "async_update_data rt stations dtus microinverters s
      = (Inr [?e1, ?e2, ?e3, ?e4, ?e5, ?e6, ?e7, ?e8], s8)"
    by (simp add: async_update_data_jobs refresh_token_valid [OF session(2)] and_then_def run)
  have "sent s8 = sent s @
            [station_request tok na,
             detail_request API_DTU_DETAIL_URL tok i1 na, page_request API_DTU_URL tok na,
             detail_request API_MICRO_DETAIL_URL tok k1 na,
             detail_request API_MICRO_DETAIL_URL tok k2 na,
             station_request tok nb,
             detail_request API_DTU_DETAIL_URL tok i2 nb, page_request API_DTU_URL tok nb,
             detail_request API_MICRO_DETAIL_URL tok k3 nb,
             detail_request API_MICRO_DETAIL_URL tok k4 nb]"
    by (simp add: n1 n2 n3 n4 n5 n6 n7 n8)
  then have iss: "issued s s8 =
            [station_request tok na,
             detail_request API_DTU_DETAIL_URL tok i1 na, page_request API_DTU_URL tok na,
             detail_request API_MICRO_DETAIL_URL tok k1 na,
             detail_request API_MICRO_DETAIL_URL tok k2 na,
             station_request tok nb,
             detail_request API_DTU_DETAIL_URL tok i2 nb, page_request API_DTU_URL tok nb,
             detail_request API_MICRO_DETAIL_URL tok k3 nb,
             detail_request API_MICRO_DETAIL_URL tok k4 nb]"
    by (simp add: issued_def)
  show ?thesis using upd c1 c2 iss jobs by blast
qed

lemma demo_delivers:
  "\<forall>rq w. fst (rt_post (server_rt (demo_server login_ok micro_ok)) rq w) = Json (demo_json rq)"
proof -
  have "demo_server login_ok micro_ok rq = Json (demo_json rq)" for rq
    by (cases "req_url rq") (simp_all add: demo_json_def demo_server_def login_ok_def micro_ok_def)
  then show ?thesis by (simp add: server_rt_def)
qed

theorem two_site_cycle_witness:
  "\<exists>s' c1 c2. async_update_data (server_rt (demo_server login_ok micro_ok)) demo_stations demo_dtus demo_micros
          (demo_sys (demo_api (JStr ''T1'') 8200) 1000) =
       (Inr [(''1'', JObj [(''real_time_data'', JObj [(''real_power'', JStr ''412.5'')])]),
             (''21'', JObj [(''real_time_data'', JObj c1)]),
             (''31'', JObj [(''real_time_data'', JObj [(''power'', JInt 3)])]),
             (''32'', JObj [(''real_time_data'', JObj [(''power'', JInt 3)])]),
             (''2'', JObj [(''real_time_data'', JObj [(''real_power'', JStr ''412.5'')])]),
             (''22'', JObj [(''real_time_data'', JObj c2)]),
             (''33'', JObj [(''real_time_data'', JObj [(''power'', JInt 3)])]),
             (''34'', JObj [(''real_time_data'', JObj [(''power'', JInt 3)])])], s')
     \<and> map_of c1 = (map_of [(''a'', JInt 1), (''b'', JInt 2)])
           (''warn_data'' \<mapsto> JObj [(''connect'', JBool True)], ''model_no'' \<mapsto> JStr ''DTU-A'')
     \<and> map_of c2 = (map_of [(''a'', JInt 1), (''b'', JInt 2)])
           (''warn_data'' \<mapsto> JObj [(''connect'', JBool False)], ''model_no'' \<mapsto> JStr ''DTU-B'')
     \<and> map req_url (issued (demo_sys (demo_api (JStr ''T1'') 8200) 1000) s') =
         [API_REAL_TIME_DATA_URL, API_DTU_DETAIL_URL, API_DTU_URL, API_MICRO_DETAIL_URL, API_MICRO_DETAIL_URL,
          API_REAL_TIME_DATA_URL, API_DTU_DETAIL_URL, API_DTU_URL, API_MICRO_DETAIL_URL, API_MICRO_DETAIL_URL]"
proof -
  let ?rt = "server_rt (demo_server login_ok micro_ok)"
  let ?s = "demo_sys (demo_api (JStr ''T1'') 8200) 1000"
  let ?e21 = "[(''id'', JInt 21), (''warn_data'', JObj [(''connect'', JBool True)]),
               (''model_no'', JStr ''DTU-A'')]"
  let ?e22 = "[(''id'', JInt 22), (''warn_data'', JObj [(''connect'', JBool False)]),
               (''model_no'', JStr ''DTU-B'')]"
  let ?l = "[(''list'', JList [JObj ?e21, JObj ?e22])]"
  have session: "truthy (token (api ?s))" "\<not> is_token_expired (api ?s) (rt_time ?rt (world ?s))"
    "JStr ''T1'' = token (api ?s)"
    by (simp_all add: demo_sys_def demo_api_def is_token_expired_def server_rt_def)
  have topology: "map fst demo_stations = [''1'', ''2'']"
    "devices_of ''1'' demo_dtus = [dev ''21'']" "devices_of ''2'' demo_dtus = [dev ''22'']"
    "devices_of ''1'' demo_micros = [dev ''31'', dev ''32'']"
    "devices_of ''2'' demo_micros = [dev ''33'', dev ''34'']"
    by (simp_all add: demo_stations_def demo_dtus_def demo_micros_def devices_of_def)
  have ids: "distinct [''1'', dev_id (dev ''21''), dev_id (dev ''31''), dev_id (dev ''32''),
               ''2'', dev_id (dev ''22''), dev_id (dev ''33''), dev_id (dev ''34'')]"
    by (simp add: dev_def)
  have ints: "py_int_of_str (dev_id (dev ''21'')) = Some 21" "py_int_of_str (dev_id (dev ''22'')) = Some 22"
    "py_int_of_str (dev_id (dev ''31'')) = Some 31" "py_int_of_str (dev_id (dev ''32'')) = Some 32"
    "py_int_of_str (dev_id (dev ''33'')) = Some 33" "py_int_of_str (dev_id (dev ''34'')) = Some 34"
    by (simp_all add: dev_def demo_ids)
  have site: "success_with (demo_json (station_request t n)) (JObj [(''real_power'', JStr ''412.5'')])"
    and micro: "success_with (demo_json (detail_request API_MICRO_DETAIL_URL t k n)) (JObj [(''power'', JInt 3)])"
    and detail: "success_with (demo_json (detail_request API_DTU_DETAIL_URL t k n))
        (JObj [(''a'', JInt 1), (''b'', JInt 2)])"
    and listing: "success_with (demo_json (page_request API_DTU_URL t n)) (JObj ?l)" for t k n
    by (simp_all add: success_with_def demo_json_def demo_server_def micro_ok_def envelope_def
        demo_listing_def station_request_def detail_request_def page_request_def)
  have l1: "map_of ?l ''list'' = Some (JList ([] @ JObj ?e21 # [JObj ?e22]))"
    and l2: "map_of ?l ''list'' = Some (JList ([JObj ?e21] @ JObj ?e22 # []))"
    by simp_all
  have m1: "\<forall>x \<in> set ([] :: json list). is_obj x"
    "\<forall>x \<in> set [JObj ?e22]. is_obj x \<and> \<not> entry_matches (rt_repr ?rt) (dev_id (dev ''21'')) x"
    "entry_matches (rt_repr ?rt) (dev_id (dev ''21'')) (JObj ?e21)"
    "map_of ?e21 ''warn_data'' = Some (JObj [(''connect'', JBool True)])"
    "map_of ?e21 ''model_no'' = Some (JStr ''DTU-A'')"
    by (simp_all add: entry_matches_def demo_texts is_obj_def dev_def)
  have m2: "\<forall>x \<in> set [JObj ?e21]. is_obj x"
    "\<forall>x \<in> set ([] :: json list). is_obj x \<and> \<not> entry_matches (rt_repr ?rt) (dev_id (dev ''22'')) x"
    "entry_matches (rt_repr ?rt) (dev_id (dev ''22'')) (JObj ?e22)"
    "map_of ?e22 ''warn_data'' = Some (JObj [(''connect'', JBool False)])"
    "map_of ?e22 ''model_no'' = Some (JStr ''DTU-B'')"
    by (simp_all add: entry_matches_def demo_texts is_obj_def dev_def)
  from two_site_cycle [OF demo_delivers session topology ids demo_ids(1,2) ints
      site site micro micro micro micro detail listing l1 m1 detail listing l2 m2]
  obtain s' c1 c2 where w:
    "async_update_data ?rt demo_stations demo_dtus demo_micros ?s =
       (Inr [(''1'', JObj [(''real_time_data'', JObj [(''real_power'', JStr ''412.5'')])]),
             (''21'', JObj [(''real_time_data'', JObj c1)]),
             (''31'', JObj [(''real_time_data'', JObj [(''power'', JInt 3)])]),
             (''32'', JObj [(''real_time_data'', JObj [(''power'', JInt 3)])]),
             (''2'', JObj [(''real_time_data'', JObj [(''real_power'', JStr ''412.5'')])]),
             (''22'', JObj [(''real_time_data'', JObj c2)]),
             (''33'', JObj [(''real_time_data'', JObj [(''power'', JInt 3)])]),
             (''34'', JObj [(''real_time_data'', JObj [(''power'', JInt 3)])])], s')"
    "map_of c1 = (map_of [(''a'', JInt 1), (''b'', JInt 2)])
           (''warn_data'' \<mapsto> JObj [(''connect'', JBool True)], ''model_no'' \<mapsto> JStr ''DTU-A'')"
    "map_of c2 = (map_of [(''a'', JInt 1), (''b'', JInt 2)])
           (''warn_data'' \<mapsto> JObj [(''connect'', JBool False)], ''model_no'' \<mapsto> JStr ''DTU-B'')"
    "map req_url (issued ?s s') =
         [API_REAL_TIME_DATA_URL, API_DTU_DETAIL_URL, API_DTU_URL, API_MICRO_DETAIL_URL, API_MICRO_DETAIL_URL,
          API_REAL_TIME_DATA_URL, API_DTU_DETAIL_URL, API_DTU_URL, API_MICRO_DETAIL_URL, API_MICRO_DETAIL_URL]"
    by (auto simp: dev_def)
  show ?thesis
    by (rule exI [of _ s'], rule exI [of _ c1], rule exI [of _ c2], intro conjI) (rule w)+
qed

section \<open>Properties of the value coercion\<close>

lemma blank_space: "is_blank (JStr '' '')"
  by (simp add: is_blank_def strip_with_def py_space_def)

text \<open>
  Claim C9. For \<open>None\<close>, the empty string, the string of one space and the string
  \<open>"-"\<close>, the integer coercion returns \<open>0\<close> and the float coercion returns \<open>0.0\<close>;
  both return, neither raises.
\<close>

theorem missing_values_coerce_to_zero:
  "safe_int_convert JNull = Inr 0
   \<and> safe_int_convert (JStr []) = Inr 0
   \<and> safe_int_convert (JStr '' '') = Inr 0
   \<and> safe_int_convert (JStr ''-'') = Inr 0
   \<and> safe_float_convert JNull = Inr (Finite 0)
   \<and> safe_float_convert (JStr []) = Inr (Finite 0)
   \<and> safe_float_convert (JStr '' '') = Inr (Finite 0)
   \<and> safe_float_convert (JStr ''-'') = Inr (Finite 0)"
  by (simp add: safe_int_convert_def safe_float_convert_def blank_space)

subsection \<open>Strings that are no numbers\<close>

lemma strip_with_empty: "strip_with P s = [] \<Longrightarrow> \<forall>c \<in> set s. P c"
proof -
  assume e: "strip_with P s = []"
  have "dropWhile P s = []"
  proof (rule ccontr)
    assume n: "dropWhile P s \<noteq> []"
    then have "\<not> P (hd (dropWhile P s))" by (rule hd_dropWhile)
    moreover from e have "\<forall>c \<in> set (rev (dropWhile P s)). P c"
      by (simp add: strip_with_def dropWhile_eq_Nil_conv)
    ultimately show False using n by (simp add: hd_in_set)
  qed
  then show ?thesis by (simp add: dropWhile_eq_Nil_conv)
qed

lemma set_strip_with: "set (strip_with P s) \<subseteq> set s"
  unfolding strip_with_def by (metis set_dropWhileD set_rev subsetI)

lemma drop_underscores_none:
  "prev \<noteq> CHR ''_'' \<Longrightarrow> CHR ''_'' \<notin> set t \<Longrightarrow> drop_underscores prev t = Some t"
  by (induction t arbitrary: prev) auto

lemma space_chars:
  "py_space c \<Longrightarrow> c \<noteq> CHR ''_'' \<and> c \<noteq> CHR ''-'' \<and> c \<noteq> CHR ''+'' \<and> c \<noteq> CHR ''.''
     \<and> \<not> is_digit c \<and> lower c = c"
  by (auto simp: py_space_def is_digit_def lower_def)

lemma float_of_spaces:
  assumes "\<forall>c \<in> set t. py_space c"
  shows "(case split_sign t of (neg, body) \<Rightarrow>
               if map lower body = ''inf'' \<or> map lower body = ''infinity''
               then Some (if neg then NegInf else PosInf)
               else if map lower body = ''nan'' then Some NaN
               else
                 (case parse_decimal body of
                    None \<Rightarrow> None
                  | Some q \<Rightarrow> Some (round_double (if neg then - q else q)))) = None"
proof (cases t)
  case Nil
  then show ?thesis by (simp add: split_sign_def parse_decimal_def)
next
  case (Cons c cs)
  with assms have c: "py_space c" by simp
  note sc = space_chars [OF c]
  have "\<not> py_space CHR ''i''" "\<not> py_space CHR ''n''" by (simp_all add: py_space_def)
  with c have "c \<noteq> CHR ''i''" "c \<noteq> CHR ''n''" by auto
  then show ?thesis using Cons sc by (simp add: split_sign_def parse_decimal_def)
qed

lemma blank_not_float:
  assumes "strip_with py_space s = []"
  shows "py_float_of_str s = None"
proof -
  let ?t = "strip_with num_space s"
  from strip_with_empty [OF assms] set_strip_with [of num_space s]
  have sp: "\<forall>c \<in> set ?t. py_space c" by blast
  then have "CHR ''_'' \<notin> set ?t" using space_chars by blast
  then have "drop_underscores (CHR 0x00) ?t = Some ?t" by (simp add: drop_underscores_none)
  then show ?thesis using float_of_spaces [OF sp] by (simp add: py_float_of_str_def)
qed

lemma dash_not_float: "py_float_of_str ''-'' = None" "py_float_of_str [] = None"
  by (simp_all add: py_float_of_str_def strip_with_def num_space_def split_sign_def parse_decimal_def)

lemma truncation:
  fixes x :: rat
  defines "k \<equiv> (if 0 \<le> x then \<lfloor>x\<rfloor> else \<lceil>x\<rceil>)"
  shows "\<bar>of_int k\<bar> \<le> \<bar>x\<bar> \<and> \<bar>x\<bar> < \<bar>of_int k\<bar> + 1 \<and> (0 \<le> x \<longrightarrow> 0 \<le> k) \<and> (x \<le> 0 \<longrightarrow> k \<le> 0)"
proof (cases "0 \<le> x")
  case True
  then have k: "k = \<lfloor>x\<rfloor>" and nn: "0 \<le> \<lfloor>x\<rfloor>" by (simp_all add: k_def)
  have "of_int \<lfloor>x\<rfloor> \<le> x" "x < of_int \<lfloor>x\<rfloor> + 1" by linarith+
  moreover have "x \<le> 0 \<longrightarrow> \<lfloor>x\<rfloor> \<le> 0" using True by auto
  ultimately show ?thesis using True nn by (simp add: k)
next
  case False
  then have k: "k = \<lceil>x\<rceil>" by (simp add: k_def)
  from False have np: "\<lceil>x\<rceil> \<le> 0" by (simp add: ceiling_le_iff)
  have "x \<le> of_int \<lceil>x\<rceil>" "of_int \<lceil>x\<rceil> - 1 < x" by linarith+
  then show ?thesis using False np by (simp add: k)
qed

subsection \<open>Some conversions worked out\<close>

lemma int_coercion_exact_below_2_53:
  assumes "\<bar>n\<bar> \<le> 2 ^ 53"
  shows "safe_int_convert (JInt n) = Inr n"
  using round_double_small_int [OF assms]
  by (simp add: safe_int_convert_def is_blank_def except_value_type_def py_float_of_int_def)

lemma nearest_double_below_one: "round_double (99999999999999999999 / 100000000000000000000) = Finite 1"
  by (subst round_double_at [where e = "- 1"]) (simp_all add: pow2_def round_half_even_def Let_def)

lemma nearest_double_overflow: "round_double (of_int (2 ^ 1024)) = PosInf"
  by (subst round_double_at [where e = 1024]) (simp_all add: pow2_def round_half_even_def Let_def)

lemma nearest_double_3_7: "round_double (- (37 / 10)) = Finite (- (4165829655317709 / 1125899906842624))"
  by (subst round_double_at [where e = 1]) (simp_all add: pow2_def round_half_even_def Let_def)

lemma nearest_double_tenth: "round_double (1 / 10) = Finite (3602879701896397 / 36028797018963968)"
  by (subst round_double_at [where e = "- 4"]) (simp_all add: pow2_def round_half_even_def Let_def)

lemmas parse_defs = py_float_of_str_def strip_with_def num_space_def split_sign_def parse_decimal_def
  parse_exponent_def is_digit_def digits_val_def digit_val_def pow10_def lower_def

lemma float_of_nines: "py_float_of_str ''0.99999999999999999999'' = Some (Finite 1)"
  by (simp add: parse_defs nearest_double_below_one)

lemma float_of_3_7: "py_float_of_str ''-3.7'' = Some (Finite (- (4165829655317709 / 1125899906842624)))"
  by (simp add: parse_defs nearest_double_3_7)

lemma value_of_nines: "parse_decimal ''0.99999999999999999999'' = Some (99999999999999999999 / 100000000000000000000)"
  by (simp add: parse_defs)

lemma float_of_big_int: "py_float_of_int (2 ^ 1024) = Inl OverflowError"
  unfolding py_float_of_int_def nearest_double_overflow by simp

lemma int_of_nines: "safe_int_convert (JStr ''0.99999999999999999999'') = Inr 1"
  by (simp add: safe_int_convert_def is_blank_def strip_with_def py_space_def except_value_type_def float_of_nines)

lemma int_of_big_int: "safe_int_convert (JInt (2 ^ 1024)) = Inl OverflowError"
  unfolding safe_int_convert_def by (simp add: is_blank_def except_value_type_def float_of_big_int del: power_numeral)

lemma int_of_3_7: "safe_int_convert (JStr ''-3.7'') = Inr (- 3)"
  by (simp add: safe_int_convert_def is_blank_def strip_with_def py_space_def except_value_type_def float_of_3_7)

lemma int_of_2_9: "safe_int_convert (JFloat (Finite (29 / 10))) = Inr 2"
  by (simp add: safe_int_convert_def is_blank_def except_value_type_def)

subsection \<open>Truncation\<close>

text \<open>
  Claim C10, as stated, fails. The string \<open>"0.99999999999999999999"\<close> is a number
  with a fractional part whose integer part is 0, but the double nearest to it is
  1.0 and the coercion returns 1.
\<close>

theorem int_coercion_rounding_counterexample:
  "parse_decimal ''0.99999999999999999999'' = Some (99999999999999999999 / 100000000000000000000)
   \<and> py_float (JStr ''0.99999999999999999999'') = Inr (Finite 1)
   \<and> safe_int_convert (JStr ''0.99999999999999999999'') = Inr 1"
  using value_of_nines int_of_nines float_of_nines by simp

text \<open>
  Claim C10, amended. The integer coercion truncates toward zero the double that
  \<open>float(value)\<close> gives: whenever that is a finite double \<open>x\<close>, the coercion
  returns the integer \<open>k\<close> of the same sign with \<open>|k| \<le> |x| < |k| + 1\<close>, that
  is \<open>x\<close> with its fraction discarded, never a rounded value: 2 for the float 2.9
  and -3 for the string \<open>"-3.7"\<close>.
\<close>

theorem int_coercion_truncates_double:
  assumes "py_float v = Inr (Finite x)"
  shows "\<exists>k. safe_int_convert v = Inr k
           \<and> \<bar>of_int k\<bar> \<le> \<bar>x\<bar> \<and> \<bar>x\<bar> < \<bar>of_int k\<bar> + 1 \<and> (0 \<le> x \<longrightarrow> 0 \<le> k) \<and> (x \<le> 0 \<longrightarrow> k \<le> 0)"
proof -
  have "safe_int_convert v = Inr (if 0 \<le> x then \<lfloor>x\<rfloor> else \<lceil>x\<rceil>)"
  proof (cases v)
    case (JStr s)
    with assms have f: "py_float_of_str s = Some (Finite x)" by (simp split: option.splits)
    then have "s \<noteq> ''-''" "s \<noteq> []" "strip_with py_space s \<noteq> []"
      using dash_not_float blank_not_float by auto
    then show ?thesis using JStr f
      by (simp add: safe_int_convert_def is_blank_def except_value_type_def)
  next
    case (JBool b)
    with assms show ?thesis by (auto simp: safe_int_convert_def is_blank_def)
  qed (use assms in \<open>auto simp: safe_int_convert_def is_blank_def except_value_type_def\<close>)
  then show ?thesis using truncation [of x] by auto
qed

theorem int_coercion_truncates_double_witness:
  "py_float (JFloat (Finite (29 / 10))) = Inr (Finite (29 / 10))
   \<and> safe_int_convert (JFloat (Finite (29 / 10))) = Inr 2
   \<and> py_float (JStr ''-3.7'') = Inr (Finite (- (4165829655317709 / 1125899906842624)))
   \<and> safe_int_convert (JStr ''-3.7'') = Inr (- 3)"
proof -
  have fa: "py_float (JFloat (Finite (29 / 10))) = Inr (Finite (29 / 10))" by simp
  have fb: "py_float (JStr ''-3.7'') = Inr (Finite (- (4165829655317709 / 1125899906842624)))"
    by (simp add: float_of_3_7)
  from int_coercion_truncates_double [OF fa] obtain k where
    k: "safe_int_convert (JFloat (Finite (29 / 10))) = Inr k"
      "\<bar>rat_of_int k\<bar> \<le> \<bar>29 / 10\<bar>" "\<bar>29 / 10\<bar> < \<bar>rat_of_int k\<bar> + 1" "0 \<le> k"
    by auto
  from k(2,4) have "k \<le> \<lfloor>29 / 10 :: rat\<rfloor>" by (simp add: le_floor_iff)
  moreover from k(3,4) have "\<lfloor>29 / 10 :: rat\<rfloor> < k + 1" by (simp add: floor_less_iff)
  ultimately have k2: "k = 2" by simp
  from int_coercion_truncates_double [OF fb] obtain j where
    j: "safe_int_convert (JStr ''-3.7'') = Inr j"
      "\<bar>rat_of_int j\<bar> \<le> \<bar>- (4165829655317709 / 1125899906842624)\<bar>"
      "\<bar>- (4165829655317709 / 1125899906842624)\<bar> < \<bar>rat_of_int j\<bar> + 1" "j \<le> 0"
    by auto
  from j(2,4) have "- j \<le> \<lfloor>4165829655317709 / 1125899906842624 :: rat\<rfloor>" by (simp add: le_floor_iff)
  moreover from j(3,4) have "\<lfloor>4165829655317709 / 1125899906842624 :: rat\<rfloor> < - j + 1"
    by (simp add: floor_less_iff)
  ultimately have j3: "j = - 3" by simp
  show ?thesis using fa fb k(1) k2 j(1) j3 by simp
qed

end
